theory Spec2Isabelle
  imports Main "HOL-Library.Word"
begin

unbundle bit_operations_syntax

section \<open>Common types\<close>

text \<open>
  Bytes of an \<open>ArrayBuffer\<close>, \<open>Uint8Array\<close> or \<open>Buffer\<close> are \<open>8 word\<close>. The results
  of JavaScript's bitwise operators are 32-bit; \<open>x >>> 0\<close> reads such a result as an
  unsigned 32-bit value, so they are \<open>32 word\<close>. Exceptions are values of \<open>error\<close>.
\<close>

type_synonym byte = "8 word"

datatype error = RangeError | TypeError

section \<open>sxcrypt: the SX stream cipher\<close>

definition RND_MUL1 :: "32 word" where
  "RND_MUL1 = 0x0de6d"

definition RND_MUL2 :: "32 word" where
  "RND_MUL2 = 0x0278d"

text \<open>
  \<open>getUint16LE\<close> builds a 2-byte \<open>DataView\<close> at \<open>offset\<close>; the constructor throws a
  \<open>RangeError\<close> when the two bytes do not lie inside the buffer. The array is one
  that owns its buffer (as \<open>createKeyBytes\<close> returns it).
\<close>

definition getUint16LE :: "byte list \<Rightarrow> nat \<Rightarrow> error + 32 word" where
  "getUint16LE buffer offset =
     (if offset + 2 \<le> length buffer
      then Inr (ucast (buffer ! offset) OR push_bit 8 (ucast (buffer ! (offset + 1))))
      else Inl RangeError)"

text \<open>
  One round of the loop of \<open>hb_sxInitSeed\<close>. In
  \<open>((part1 | part2) >>> 0 * 17) >>> 0\<close> the product \<open>0 * 17\<close> binds tighter than
  \<open>>>>\<close>, so the shift count is \<open>0 * 17\<close>; the key window is combined with \<open>|\<close>.
\<close>

definition initSeed_step :: "byte list \<Rightarrow> 32 word \<Rightarrow> nat \<Rightarrow> error + 32 word" where
  "initSeed_step keyVal ulSeed i =
     (let part1 = drop_bit 16 ulSeed;
          part2 = push_bit 16 ulSeed;
          ulSeed1 = drop_bit (0 * 17) (part1 OR part2)
      in case getUint16LE keyVal i of
           Inl e \<Rightarrow> Inl e
         | Inr k \<Rightarrow> Inr (ulSeed1 OR k))"

function initSeed_loop :: "byte list \<Rightarrow> nat \<Rightarrow> 32 word \<Rightarrow> error + 32 word" where
  "initSeed_loop keyVal i ulSeed =
     (if i < 7
      then (case initSeed_step keyVal ulSeed i of
              Inl e \<Rightarrow> Inl e
            | Inr s \<Rightarrow> initSeed_loop keyVal (i + 1) s)
      else Inr ulSeed)"
  by pat_completeness auto
termination
  by (relation "measure (\<lambda>(keyVal, i, ulSeed). 7 - i)") auto

declare initSeed_loop.simps [simp del]

text \<open>The result \<open>{ ulSeed, uiKey }\<close> is the pair \<open>(ulSeed, uiKey)\<close>.\<close>

definition hb_sxInitSeed :: "byte list \<Rightarrow> error + (32 word \<times> 32 word)" where
  "hb_sxInitSeed keyVal =
     (case initSeed_loop keyVal 0 0 of
        Inl e \<Rightarrow> Inl e
      | Inr s \<Rightarrow>
          (let ulSeed = s OR 1;
               uiKey = ulSeed AND 0xFFFF;
               finalSeed = push_bit 16 ulSeed OR drop_bit 16 ulSeed
           in Inr (finalSeed, uiKey)))"

text \<open>
  \<open>hb_sxNextSeed\<close> returns the new seed and writes the new key into \<open>uiKeyRef\<close>: the
  model returns both. Each product is a product of two JavaScript numbers below
  \<open>2^16\<close> (exact in a double) brought to 32 bits by \<open>>>> 0\<close>, which is the product
  of \<open>32 word\<close>.
\<close>

definition hb_sxNextSeed :: "32 word \<Rightarrow> byte list \<Rightarrow> nat \<Rightarrow> error + (32 word \<times> 32 word)" where
  "hb_sxNextSeed ulSeed keyVal keyIdx =
     (let uiSeedLo = ulSeed AND 0xFFFF;
          ulTemp1 = RND_MUL1 * uiSeedLo;
          ulTemp2 = (RND_MUL2 * uiSeedLo) OR drop_bit 16 ulTemp1;
          uiSeedLo' = ulTemp1 AND 0xFFFF;
          ulTemp1' = RND_MUL1 * drop_bit 16 ulSeed;
          uiSeedHi = (ulTemp1' OR ulTemp2) AND 0xFFFF;
          ulSeed' = push_bit 16 uiSeedHi OR uiSeedLo';
          uiSeedHi' = uiSeedHi OR 1
      in case getUint16LE keyVal keyIdx of
           Inl e \<Rightarrow> Inl e
         | Inr k \<Rightarrow> Inr (ulSeed', (uiSeedHi' OR k) AND 0xFFFF))"

text \<open>
  The body of the loop of \<open>hb_sxEnCrypt\<close> for one byte: rotate right by the low three
  bits of the key, add the key's low byte; the store into the \<open>Uint8Array\<close> keeps
  the low 8 bits.
\<close>

definition enCryptByte :: "byte \<Rightarrow> 32 word \<Rightarrow> byte" where
  "enCryptByte src uiKey =
     (let ucChar = (ucast src :: 32 word);
          ucShft = unat (uiKey AND 0x07);
          dst = (ucast (((drop_bit ucShft ucChar OR push_bit (8 - ucShft) ucChar) AND 0xFF)
                        + (uiKey AND 0xFF)) :: byte)
      in dst AND 0xFF)"

definition deCryptByte :: "byte \<Rightarrow> 32 word \<Rightarrow> byte" where
  "deCryptByte src uiKey =
     (let ucChar = ((ucast src :: 32 word) - (uiKey AND 0xFF)) AND 0xFF;
          ucShft = unat (uiKey AND 0x07)
      in ucast ((push_bit ucShft ucChar OR drop_bit (8 - ucShft) ucChar) AND 0xFF))"

text \<open>
  The loops over \<open>nPos\<close>: the remaining source bytes, the seed, the key and \<open>keyIdx\<close>
  are the loop state. An exception of \<open>hb_sxNextSeed\<close> leaves the loop and the function.
\<close>

fun enCrypt_loop :: "byte list \<Rightarrow> byte list \<Rightarrow> 32 word \<Rightarrow> 32 word \<Rightarrow> nat \<Rightarrow> error + byte list" where
  "enCrypt_loop keyBytes [] ulSeed uiKey keyIdx = Inr []"
| "enCrypt_loop keyBytes (c # cs) ulSeed uiKey keyIdx =
     (let d = enCryptByte c uiKey
      in case hb_sxNextSeed ulSeed keyBytes keyIdx of
           Inl e \<Rightarrow> Inl e
         | Inr (ulSeed', uiKey') \<Rightarrow>
             (case enCrypt_loop keyBytes cs ulSeed' uiKey' ((keyIdx + 1) mod 7) of
                Inl e \<Rightarrow> Inl e
              | Inr ds \<Rightarrow> Inr (d # ds)))"

fun deCrypt_loop :: "byte list \<Rightarrow> byte list \<Rightarrow> 32 word \<Rightarrow> 32 word \<Rightarrow> nat \<Rightarrow> error + byte list" where
  "deCrypt_loop keyBytes [] ulSeed uiKey keyIdx = Inr []"
| "deCrypt_loop keyBytes (c # cs) ulSeed uiKey keyIdx =
     (let d = deCryptByte c uiKey
      in case hb_sxNextSeed ulSeed keyBytes keyIdx of
           Inl e \<Rightarrow> Inl e
         | Inr (ulSeed', uiKey') \<Rightarrow>
             (case deCrypt_loop keyBytes cs ulSeed' uiKey' ((keyIdx + 1) mod 7) of
                Inl e \<Rightarrow> Inl e
              | Inr ds \<Rightarrow> Inr (d # ds)))"

definition hb_sxEnCrypt :: "byte list \<Rightarrow> byte list \<Rightarrow> error + byte list" where
  "hb_sxEnCrypt srcBytes keyBytes =
     (case hb_sxInitSeed keyBytes of
        Inl e \<Rightarrow> Inl e
      | Inr (ulSeed, uiKey) \<Rightarrow> enCrypt_loop keyBytes srcBytes ulSeed uiKey 0)"

definition hb_sxDeCrypt :: "byte list \<Rightarrow> byte list \<Rightarrow> error + byte list" where
  "hb_sxDeCrypt srcBytes keyBytes =
     (case hb_sxInitSeed keyBytes of
        Inl e \<Rightarrow> Inl e
      | Inr (ulSeed, uiKey) \<Rightarrow> deCrypt_loop keyBytes srcBytes ulSeed uiKey 0)"

text \<open>
  \<open>createKeyBytes\<close>: a fresh 8-byte array, zero where the input gives nothing. A text
  key is given by the bytes \<open>TextEncoder.encode\<close> returns for it (its UTF-8 encoding);
  a numeric key by its numbers, each taken \<open>& 0xFF\<close>.
\<close>

datatype key_input = KeyString "byte list" | KeyArray "int list"

fun createKeyBytes :: "key_input \<Rightarrow> byte list" where
  "createKeyBytes (KeyString encoded) =
     map (\<lambda>i. if i < min (length encoded) 8 then encoded ! i else 0) [0..<8]"
| "createKeyBytes (KeyArray keyInput) =
     map (\<lambda>i. if i < min (length keyInput) 8 then word_of_int (keyInput ! i) AND 0xFF else 0) [0..<8]"

subsection \<open>The cipher as the specification words it\<close>

text \<open>
  The specification's seed initialisation: swap the halves, multiply by 17 and add the
  16-bit key window, all wrapping in 32 bits, for \<open>i\<close> from 0 to 6; then set the low
  bit, take the round key and swap the halves once more.
\<close>

definition spec_k16 :: "byte list \<Rightarrow> nat \<Rightarrow> 32 word" where
  "spec_k16 key i = ucast (key ! i) OR push_bit 8 (ucast (key ! (i + 1)))"

definition spec_initSeed_round :: "byte list \<Rightarrow> nat \<Rightarrow> 32 word \<Rightarrow> 32 word" where
  "spec_initSeed_round key i seed =
     (let rot = drop_bit 16 seed OR push_bit 16 seed;
          seed1 = rot * 17
      in seed1 + spec_k16 key i)"

definition spec_initSeed :: "byte list \<Rightarrow> 32 word \<times> 32 word" where
  "spec_initSeed key =
     (let seed = fold (spec_initSeed_round key) [0, 1, 2, 3, 4, 5, 6] 0;
          seed1 = seed OR 1;
          roundKey = seed1 AND 0xFFFF;
          returnSeed = push_bit 16 seed1 OR drop_bit 16 seed1
      in (returnSeed, roundKey))"

text \<open>
  Steps 1 to 6 of the specification's keystream step: \<open>t2\<close> and \<open>newHi\<close> are sums.
\<close>

definition spec_t2 :: "32 word \<Rightarrow> 32 word" where
  "spec_t2 seed =
     (let seedLo = seed AND 0xFFFF;
          t1 = RND_MUL1 * seedLo
      in (RND_MUL2 * seedLo) + drop_bit 16 t1)"

definition spec_newHi :: "32 word \<Rightarrow> 32 word" where
  "spec_newHi seed =
     (let seedHi = drop_bit 16 seed;
          t1 = RND_MUL1 * seedHi
      in (t1 + spec_t2 seed) AND 0xFFFF)"

definition spec_newSeed :: "32 word \<Rightarrow> 32 word" where
  "spec_newSeed seed =
     (let seedLo = seed AND 0xFFFF;
          newLo = (RND_MUL1 * seedLo) AND 0xFFFF
      in push_bit 16 (spec_newHi seed) OR newLo)"

section \<open>dbfHandler: header, field definitions and the data section\<close>

text \<open>
  A JavaScript string is the list of its UTF-16 code units; numbers that are byte
  counts, offsets and header values are \<open>nat\<close> (they are exact in a double).
\<close>

type_synonym jsstring = "nat list"

definition js :: "string \<Rightarrow> jsstring" where
  "js s = map of_char s"

text \<open>\<open>String.prototype.trim\<close> removes white space and line terminators at both ends.\<close>

definition js_whitespace :: "nat \<Rightarrow> bool" where
  "js_whitespace c \<longleftrightarrow>
     c \<in> {0x09, 0x0A, 0x0B, 0x0C, 0x0D, 0x20, 0xA0, 0x1680, 0x2028, 0x2029, 0x202F, 0x205F,
           0x3000, 0xFEFF}
     \<or> (0x2000 \<le> c \<and> c \<le> 0x200A)"

definition trim :: "jsstring \<Rightarrow> jsstring" where
  "trim s = rev (dropWhile js_whitespace (rev (dropWhile js_whitespace s)))"

record DbfHeader =
  firstByte :: nat
  numRecords :: nat
  headerLength :: nat
  recordLength :: nat

text \<open>
  \<open>DbfField\<close> of dbfHandler and \<open>DBFField\<close> of dbfHarbour have the same members.
  \<open>type\<close> and \<open>length\<close> are \<open>type_fld\<close> and \<open>length_fld\<close> here.
\<close>

record DbfField =
  name :: jsstring
  type_fld :: jsstring
  length_fld :: nat
  decimalPlaces :: nat
  offset :: nat

text \<open>The \<open>DataView\<close> getters throw a \<open>RangeError\<close> outside the buffer.\<close>

definition getUint8 :: "byte list \<Rightarrow> nat \<Rightarrow> error + nat" where
  "getUint8 buffer byteOffset =
     (if byteOffset < length buffer then Inr (unat (buffer ! byteOffset)) else Inl RangeError)"

definition getUint16 :: "byte list \<Rightarrow> nat \<Rightarrow> error + nat" where
  "getUint16 buffer byteOffset =
     (if byteOffset + 2 \<le> length buffer
      then Inr (unat (buffer ! byteOffset) + 256 * unat (buffer ! (byteOffset + 1)))
      else Inl RangeError)"

definition getUint32 :: "byte list \<Rightarrow> nat \<Rightarrow> error + nat" where
  "getUint32 buffer byteOffset =
     (if byteOffset + 4 \<le> length buffer
      then Inr (unat (buffer ! byteOffset) + 256 * unat (buffer ! (byteOffset + 1))
                + 65536 * unat (buffer ! (byteOffset + 2))
                + 16777216 * unat (buffer ! (byteOffset + 3)))
      else Inl RangeError)"

text \<open>Sequencing of steps that may throw.\<close>

definition bindE :: "error + 'a \<Rightarrow> ('a \<Rightarrow> error + 'b) \<Rightarrow> error + 'b" where
  "bindE m f = (case m of Inl e \<Rightarrow> Inl e | Inr x \<Rightarrow> f x)"

text \<open>
  One field definition at \<open>offset\<close>. \<open>new Uint8Array(buffer, offset, 11)\<close> throws a
  \<open>RangeError\<close> when the 11 bytes do not lie inside the buffer.
  \<open>TextDecoder('ascii').decode\<close> is the platform's: the parameter \<open>decodeAscii\<close>.
\<close>

definition readField :: "(byte list \<Rightarrow> jsstring) \<Rightarrow> byte list \<Rightarrow> nat \<Rightarrow> nat \<Rightarrow> error + DbfField" where
  "readField decodeAscii buffer offs currentFieldOffset =
     (if offs + 11 \<le> length buffer
      then (let nameBytes = take 11 (drop offs buffer);
                nm = trim (filter (\<lambda>c. c \<noteq> 0) (decodeAscii nameBytes))
            in bindE (getUint8 buffer (offs + 11)) (\<lambda>t.
               bindE (getUint8 buffer (offs + 16)) (\<lambda>len.
               bindE (getUint8 buffer (offs + 17)) (\<lambda>dec.
               Inr \<lparr> name = nm, type_fld = [t], length_fld = len, decimalPlaces = dec,
                     offset = currentFieldOffset \<rparr>))))
      else Inl RangeError)"

text \<open>
  The \<open>while\<close> loop of \<open>readDbfMetadata\<close>; \<open>offset < headerLength - 1\<close> on numbers is
  \<open>offs + 1 < headerLength\<close> on \<open>nat\<close>.
\<close>

function readFields_loop ::
  "(byte list \<Rightarrow> jsstring) \<Rightarrow> byte list \<Rightarrow> nat \<Rightarrow> nat \<Rightarrow> nat \<Rightarrow> DbfField list
   \<Rightarrow> error + DbfField list" where
  "readFields_loop decodeAscii buffer hdrLen offs currentFieldOffset flds =
     (if offs + 1 < hdrLen
      then bindE (getUint8 buffer offs) (\<lambda>b.
             if b \<noteq> 0x0D
             then bindE (readField decodeAscii buffer offs currentFieldOffset) (\<lambda>field.
                    readFields_loop decodeAscii buffer hdrLen (offs + 32)
                      (currentFieldOffset + length_fld field) (flds @ [field]))
             else Inr flds)
      else Inr flds)"
  by pat_completeness auto
termination
  by (relation "measure (\<lambda>(d, buffer, hdrLen, offs, c, flds). hdrLen - offs)") auto

declare readFields_loop.simps [simp del]

definition readDbfMetadata ::
  "(byte list \<Rightarrow> jsstring) \<Rightarrow> byte list \<Rightarrow> error + (DbfHeader \<times> DbfField list)" where
  "readDbfMetadata decodeAscii buffer =
     bindE (getUint8 buffer 0) (\<lambda>fb.
     bindE (getUint32 buffer 4) (\<lambda>nr.
     bindE (getUint16 buffer 8) (\<lambda>hl.
     bindE (getUint16 buffer 10) (\<lambda>rl.
     bindE (readFields_loop decodeAscii buffer hl 32 1 []) (\<lambda>flds.
     Inr (\<lparr> firstByte = fb, numRecords = nr, headerLength = hl, recordLength = rl \<rparr>,
          flds))))))"

text \<open>
  \<open>ArrayBuffer.prototype.slice(begin, end)\<close> for non-negative arguments: both ends are
  clamped to the length, and the result is a new buffer.
\<close>

definition slice :: "byte list \<Rightarrow> nat \<Rightarrow> nat \<Rightarrow> byte list" where
  "slice buffer start fin = take (fin - start) (drop start buffer)"

definition getDbfDataSection :: "byte list \<Rightarrow> nat \<Rightarrow> nat \<Rightarrow> nat \<Rightarrow> byte list" where
  "getDbfDataSection buffer hdrLen nRecords recLen =
     (let dataStart = hdrLen;
          dataEnd = dataStart + (nRecords * recLen)
      in slice buffer dataStart dataEnd)"

subsection \<open>The buffers that are written in place\<close>

text \<open>
  \<open>setDbfFirstByte\<close> and \<open>setDbfDataSection\<close> write into the \<open>ArrayBuffer\<close> they are
  given and return that same buffer. The store is the list of all \<open>ArrayBuffer\<close>s
  allocated so far; a buffer is its index in the store.
\<close>

type_synonym addr = nat

type_synonym heap = "byte list list"

definition alloc :: "heap \<Rightarrow> byte list \<Rightarrow> addr \<times> heap" where
  "alloc h bytes = (length h, h @ [bytes])"

text \<open>\<open>buffer.slice(0)\<close>: a copy in a new buffer.\<close>

definition slice0 :: "heap \<Rightarrow> addr \<Rightarrow> addr \<times> heap" where
  "slice0 h buffer = alloc h (slice (h ! buffer) 0 (length (h ! buffer)))"

definition setDbfFirstByte :: "heap \<Rightarrow> addr \<Rightarrow> nat \<Rightarrow> error + (addr \<times> heap)" where
  "setDbfFirstByte h buffer v =
     (if 0 < length (h ! buffer)
      then Inr (buffer, h[buffer := (h ! buffer)[0 := of_nat v]])
      else Inl RangeError)"

text \<open>
  The loop of \<open>setDbfDataSection\<close>: the \<open>i\<close>-th byte goes to \<open>dataStart + i\<close>; a store
  past the end of a typed array does nothing.
\<close>

fun write_bytes :: "byte list \<Rightarrow> nat \<Rightarrow> byte list \<Rightarrow> byte list" where
  "write_bytes fullBuffer pos [] = fullBuffer"
| "write_bytes fullBuffer pos (b # bs) =
     write_bytes (if pos < length fullBuffer then fullBuffer[pos := b] else fullBuffer)
       (pos + 1) bs"

text \<open>
  \<open>newDataBytes\<close> is \<open>None\<close> when the caller passes \<open>undefined\<close>: reading
  \<open>newDataBytes.byteLength\<close> throws a \<open>TypeError\<close>.
\<close>

definition setDbfDataSection ::
  "heap \<Rightarrow> addr \<Rightarrow> byte list option \<Rightarrow> nat \<Rightarrow> error + (addr \<times> heap)" where
  "setDbfDataSection h originalBuffer newDataBytes hdrLen =
     (case newDataBytes of
        None \<Rightarrow> Inl TypeError
      | Some bytes \<Rightarrow>
          Inr (originalBuffer,
               h[originalBuffer := write_bytes (h ! originalBuffer) hdrLen bytes]))"

section \<open>dbfProcess: the pipeline\<close>

text \<open>
  The module-level variables \<open>processedDataBytes\<close> and \<open>statusMessage\<close> are declared
  without a value: they are \<open>undefined\<close> (\<open>None\<close>) until a call assigns them, and keep
  what a call leaves in them.
\<close>

record module_state =
  processedDataBytes :: "byte list option"
  statusMessage :: "jsstring option"

definition fresh_module :: module_state where
  "fresh_module = \<lparr> processedDataBytes = None, statusMessage = None \<rparr>"

text \<open>
  The result of \<open>processDbfFile\<close>; \<open>fields\<close> is \<open>fields_res\<close> here, and \<open>status\<close> is
  \<open>None\<close> when \<open>statusMessage\<close> is \<open>undefined\<close>.
\<close>

record 'r ProcessedDbfResult =
  fields_res :: "DbfField list"
  records :: "'r list"
  fileBuffer :: addr
  status :: "jsstring option"

definition msg_decrypted :: jsstring where
  "msg_decrypted = js ''Dados descriptografados.''"

definition msg_encrypted :: jsstring where
  "msg_encrypted = js ''Dados criptografados.''"

text \<open>
  The message appended in the \<open>catch\<close>: \<open>0xE7\<close> and \<open>0xE3\<close> are the code units of the
  c with cedilla and the a with tilde of its last word.
\<close>

definition msg_parse_error :: jsstring where
  "msg_parse_error = js '' Erro ao parsear dados para exibi'' @ [0xE7, 0xE3] @ js ''o.''"

text \<open>\<open>statusMessage += s\<close>: an \<open>undefined\<close> left operand is converted to \<open>"undefined"\<close>.\<close>

definition append_status :: "jsstring option \<Rightarrow> jsstring \<Rightarrow> jsstring" where
  "append_status st s = (case st of None \<Rightarrow> js ''undefined'' | Some t \<Rightarrow> t) @ s"

text \<open>
  Step 3 of \<open>processDbfFile\<close>: only a table whose first byte is \<open>0x06\<close> is processed. It
  returns the store and the module variables as the step leaves them, with the error
  when it throws.
\<close>

definition process_step ::
  "heap \<Rightarrow> module_state \<Rightarrow> addr \<Rightarrow> nat \<Rightarrow> byte list \<Rightarrow> byte list \<Rightarrow> bool
   \<Rightarrow> error option \<times> addr \<times> heap \<times> module_state" where
  "process_step h m currentFileBuffer fstByte dataBytes keyBytes isDecrypt =
     (if fstByte = 0x06
      then (if isDecrypt
            then (case hb_sxDeCrypt dataBytes keyBytes of
                    Inl e \<Rightarrow> (Some e, currentFileBuffer, h, m)
                  | Inr p \<Rightarrow>
                      (let m1 = m\<lparr> processedDataBytes := Some p \<rparr>
                       in case setDbfFirstByte h currentFileBuffer 0x03 of
                            Inl e \<Rightarrow> (Some e, currentFileBuffer, h, m1)
                          | Inr (cur, h1) \<Rightarrow>
                              (None, cur, h1, m1\<lparr> statusMessage := Some msg_decrypted \<rparr>)))
            else (case hb_sxEnCrypt dataBytes keyBytes of
                    Inl e \<Rightarrow> (Some e, currentFileBuffer, h, m)
                  | Inr p \<Rightarrow>
                      (let m1 = m\<lparr> processedDataBytes := Some p \<rparr>
                       in case setDbfFirstByte h currentFileBuffer 0x06 of
                            Inl e \<Rightarrow> (Some e, currentFileBuffer, h, m1)
                          | Inr (cur, h1) \<Rightarrow>
                              (None, cur, h1, m1\<lparr> statusMessage := Some msg_encrypted \<rparr>))))
      else (None, currentFileBuffer, h, m))"

text \<open>
  Step 5: in decrypt mode a second copy of the input gets the processed bytes and goes
  to \<open>dbf.parse\<close> of the \<open>dbf\<close> package, the parameter \<open>dbfParse\<close> (\<open>None\<close> when it
  throws); whatever is thrown inside the \<open>try\<close> only extends the status message.
\<close>

definition parse_step ::
  "(byte list \<Rightarrow> 'r list option) \<Rightarrow> heap \<Rightarrow> module_state \<Rightarrow> addr \<Rightarrow> nat \<Rightarrow> bool
   \<Rightarrow> 'r list \<times> heap \<times> module_state" where
  "parse_step dbfParse h m fileBuf hdrLen isDecrypt =
     (if isDecrypt
      then (let (tmp, h1) = slice0 h fileBuf;
                failed = m\<lparr> statusMessage := Some (append_status (statusMessage m) msg_parse_error) \<rparr>
            in case setDbfDataSection h1 tmp (processedDataBytes m) hdrLen of
                 Inl e \<Rightarrow> ([], h1, failed)
               | Inr (tmpBuf, h2) \<Rightarrow>
                   (case dbfParse (h2 ! tmpBuf) of
                      None \<Rightarrow> ([], h2, failed)
                    | Some recs \<Rightarrow> (recs, h2, m)))
      else ([], h, m))"

text \<open>
  \<open>processDbfFile\<close>, one call run to its end: from the store, the module variables and
  the arguments to the result (or the error the promise is rejected with), the store
  and the module variables after the call. The logging and the delay do not appear.
\<close>

definition processDbfFile ::
  "(byte list \<Rightarrow> jsstring) \<Rightarrow> (byte list \<Rightarrow> 'r list option) \<Rightarrow> heap \<Rightarrow> module_state
   \<Rightarrow> addr \<Rightarrow> key_input \<Rightarrow> bool
   \<Rightarrow> (error + 'r ProcessedDbfResult) \<times> heap \<times> module_state" where
  "processDbfFile decodeAscii dbfParse h m fileBuf keyData isDecrypt =
     (let keyBytes = createKeyBytes keyData;
          (currentFileBuffer, h1) = slice0 h fileBuf
      in case readDbfMetadata decodeAscii (h1 ! currentFileBuffer) of
           Inl e \<Rightarrow> (Inl e, h1, m)
         | Inr (header, flds) \<Rightarrow>
             (let fstByte = firstByte header;
                  dataBytes = getDbfDataSection (h1 ! currentFileBuffer) (headerLength header)
                                (numRecords header) (recordLength header)
              in case process_step h1 m currentFileBuffer fstByte dataBytes keyBytes isDecrypt of
                   (Some e, cur, h2, m2) \<Rightarrow> (Inl e, h2, m2)
                 | (None, cur, h2, m2) \<Rightarrow>
                     (case setDbfDataSection h2 cur (processedDataBytes m2) (headerLength header) of
                        Inl e \<Rightarrow> (Inl e, h2, m2)
                      | Inr (cur3, h3) \<Rightarrow>
                          (let (recs, h4, m4) =
                                 parse_step dbfParse h3 m2 fileBuf (headerLength header) isDecrypt
                           in (Inr \<lparr> fields_res = flds, records = recs, fileBuffer = cur3,
                                     status = statusMessage m4 \<rparr>, h4, m4)))))"

text \<open>
  A valid DBF buffer: its metadata can be read and the invariants the format states
  hold (the base header and terminator fit, records are not empty, the declared payload
  lies inside the buffer, and the field lengths and the deletion marker make up a record).
\<close>

definition valid_dbf :: "(byte list \<Rightarrow> jsstring) \<Rightarrow> byte list \<Rightarrow> bool" where
  "valid_dbf decodeAscii buffer =
     (case readDbfMetadata decodeAscii buffer of
        Inl e \<Rightarrow> False
      | Inr (header, flds) \<Rightarrow>
          33 \<le> headerLength header \<and> 1 \<le> recordLength header
          \<and> headerLength header + numRecords header * recordLength header \<le> length buffer
          \<and> 1 + sum_list (map length_fld flds) = recordLength header)"

text \<open>
  Sample platform functions for evaluating on concrete inputs: code units equal to the
  bytes (what both decoders give for bytes below \<open>0x80\<close>), and a \<open>dbf.parse\<close> that
  throws.
\<close>

definition sample_decode :: "byte list \<Rightarrow> jsstring" where
  "sample_decode bytes = map unat bytes"

definition sample_parse :: "byte list \<Rightarrow> unit list option" where
  "sample_parse bytes = None"

text \<open>
  A minimal table for concrete evaluations: status byte \<open>st\<close>, last update 2025-01-01,
  two records of one byte (the deletion marker alone), a header of 33 bytes with no
  field definition, then a live and a deleted record.
\<close>

definition sample_table :: "byte \<Rightarrow> byte list" where
  "sample_table st =
     [st, 25, 1, 1, 2, 0, 0, 0, 33, 0, 1, 0,
      0, 0, 0, 0, 0, 0, 0, 0, 0, 0, 0, 0, 0, 0, 0, 0, 0, 0, 0, 0, 0x0D, 0x20, 0x2A]"

definition sample_key :: key_input where
  "sample_key = KeyArray [5, 6, 5, 6, 5, 6, 5, 6]"

section \<open>dbfHarbour: header check and record decoding\<close>

text \<open>
  \<open>new Date(year, month, day)\<close> is kept as its three arguments. \<open>fields\<close> is
  \<open>fields_hdr\<close> here; \<open>codePage\<close> is \<open>None\<close> when it is \<open>undefined\<close>.
\<close>

record DBFHeader =
  version :: nat
  lastUpdate :: "int \<times> int \<times> int"
  recordCount :: nat
  headerSize :: nat
  recordSize :: nat
  fields_hdr :: "DbfField list"
  hasCodePage :: bool
  codePage :: "nat option"

text \<open>
  Node's \<open>Buffer\<close>: the \<open>read\<close> methods throw a \<open>RangeError\<close> outside the buffer, an
  indexed read \<open>buffer[i]\<close> outside it is \<open>undefined\<close> (\<open>None\<close>).
\<close>

definition readUInt8 :: "byte list \<Rightarrow> nat \<Rightarrow> error + nat" where
  "readUInt8 buffer offs =
     (if offs < length buffer then Inr (unat (buffer ! offs)) else Inl RangeError)"

definition readUInt16LE :: "byte list \<Rightarrow> nat \<Rightarrow> error + nat" where
  "readUInt16LE buffer offs =
     (if offs + 2 \<le> length buffer
      then Inr (unat (buffer ! offs) + 256 * unat (buffer ! (offs + 1)))
      else Inl RangeError)"

definition readUInt32LE :: "byte list \<Rightarrow> nat \<Rightarrow> error + nat" where
  "readUInt32LE buffer offs =
     (if offs + 4 \<le> length buffer
      then Inr (unat (buffer ! offs) + 256 * unat (buffer ! (offs + 1))
                + 65536 * unat (buffer ! (offs + 2))
                + 16777216 * unat (buffer ! (offs + 3)))
      else Inl RangeError)"

definition index :: "byte list \<Rightarrow> nat \<Rightarrow> nat option" where
  "index buffer i = (if i < length buffer then Some (unat (buffer ! i)) else None)"

text \<open>
  The name of the field at \<open>position\<close>: every code that is not \<open>0\<close> is appended;
  \<open>String.fromCharCode(undefined)\<close> is the code unit \<open>0\<close>.
\<close>

definition fieldName :: "byte list \<Rightarrow> nat \<Rightarrow> jsstring" where
  "fieldName buffer position =
     trim (concat (map (\<lambda>i. case index buffer (position + i) of
                                None \<Rightarrow> [0]
                              | Some charCode \<Rightarrow> if charCode \<noteq> 0 then [charCode] else [])
                       [0..<11]))"

definition fromCharCode :: "nat option \<Rightarrow> jsstring" where
  "fromCharCode c = (case c of None \<Rightarrow> [0] | Some charCode \<Rightarrow> [charCode])"

function PROCESSA_loop ::
  "byte list \<Rightarrow> nat \<Rightarrow> nat \<Rightarrow> nat \<Rightarrow> DbfField list \<Rightarrow> error + DbfField list" where
  "PROCESSA_loop buffer hdrSize position offs flds =
     (if position + 1 < hdrSize
      then (if index buffer position = Some 0x0D
            then Inr flds
            else (let nm = fieldName buffer position;
                      ty = fromCharCode (index buffer (position + 11))
                  in bindE (readUInt8 buffer (position + 16)) (\<lambda>len.
                     bindE (readUInt8 buffer (position + 17)) (\<lambda>dec.
                     PROCESSA_loop buffer hdrSize (position + 32) (offs + len)
                       (flds @ [\<lparr> name = nm, type_fld = ty, length_fld = len,
                                   decimalPlaces = dec, offset = offs \<rparr>])))))
      else Inr flds)"
  by pat_completeness auto
termination
  by (relation "measure (\<lambda>(buffer, hdrSize, position, offs, flds). hdrSize - position)") auto

declare PROCESSA_loop.simps [simp del]

definition PROCESSA_CAMPOS_DBF :: "byte list \<Rightarrow> nat \<Rightarrow> error + DbfField list" where
  "PROCESSA_CAMPOS_DBF buffer hdrSize = PROCESSA_loop buffer hdrSize 32 0 []"

definition VERIFICA_CODE_PAGE :: "byte list \<Rightarrow> bool" where
  "VERIFICA_CODE_PAGE buffer \<longleftrightarrow> 30 \<le> length buffer \<and> index buffer 29 \<noteq> Some 0"

definition codePageMapping :: "(nat \<times> nat) list" where
  "codePageMapping =
     [(0x01, 437), (0x02, 850), (0x03, 1252), (0x04, 10000), (0x08, 865), (0x09, 437),
      (0x0A, 850), (0x0B, 437), (0x0D, 437), (0x0E, 850), (0x0F, 437), (0x10, 850),
      (0x11, 437), (0x12, 850), (0x13, 932), (0x14, 850), (0x15, 437), (0x16, 850),
      (0x17, 865), (0x18, 437), (0x19, 437), (0x1A, 850), (0x1B, 437), (0x1C, 863),
      (0x1D, 850), (0x1F, 852), (0x22, 852), (0x23, 852), (0x24, 860), (0x25, 850),
      (0x26, 866), (0x37, 850), (0x40, 852), (0x4D, 936), (0x4E, 949), (0x4F, 950),
      (0x50, 874), (0x57, 1252), (0x58, 1252), (0x59, 1252), (0x64, 852), (0x65, 866),
      (0x66, 865), (0x67, 861), (0x6A, 737), (0x6B, 857), (0x6C, 863), (0x78, 950),
      (0x79, 949), (0x7A, 936), (0x7B, 932), (0x7C, 874), (0x86, 737), (0x87, 852),
      (0x88, 857), (0xC8, 1250), (0xC9, 1251), (0xCA, 1254), (0xCB, 1253), (0xCC, 1257)]"

definition OBTEM_CODE_PAGE :: "byte list \<Rightarrow> nat option" where
  "OBTEM_CODE_PAGE buffer =
     (if length buffer < 30 then None
      else (case index buffer 29 of
              None \<Rightarrow> None
            | Some langDriverId \<Rightarrow> map_of codePageMapping langDriverId))"

text \<open>
  The body of the \<open>try\<close> of \<open>CHECA_HEADER_DBF\<close>: \<open>Inr None\<close> is \<open>return null\<close>, \<open>Inl\<close> an
  exception, which the \<open>catch\<close> turns into \<open>null\<close>.
\<close>

definition CHECA_try :: "byte list \<Rightarrow> error + DBFHeader option" where
  "CHECA_try buffer =
     (if length buffer < 32 then Inr None
      else bindE (readUInt8 buffer 0) (\<lambda>ver.
           bindE (readUInt8 buffer 1) (\<lambda>yy.
           bindE (readUInt8 buffer 2) (\<lambda>mm.
           bindE (readUInt8 buffer 3) (\<lambda>dd.
           bindE (readUInt32LE buffer 4) (\<lambda>recCount.
           bindE (readUInt16LE buffer 8) (\<lambda>hdrSize.
           bindE (readUInt16LE buffer 10) (\<lambda>recSize.
             (let year = int yy + (if yy < 80 then 2000 else 1900);
                  month = int mm - 1;
                  day = int dd
              in if hdrSize < 32 \<or> recSize < 1 then Inr None
                 else bindE (PROCESSA_CAMPOS_DBF buffer hdrSize) (\<lambda>flds.
                   (let hasCP = VERIFICA_CODE_PAGE buffer;
                        cp = (if hasCP then OBTEM_CODE_PAGE buffer else None)
                    in Inr (Some \<lparr> version = ver, lastUpdate = (year, month, day),
                                    recordCount = recCount, headerSize = hdrSize,
                                    recordSize = recSize, fields_hdr = flds,
                                    hasCodePage = hasCP, codePage = cp \<rparr>))))))))))))"

definition CHECA_HEADER_DBF :: "byte list \<Rightarrow> DBFHeader option" where
  "CHECA_HEADER_DBF buffer = (case CHECA_try buffer of Inl e \<Rightarrow> None | Inr r \<Rightarrow> r)"

subsection \<open>Records\<close>

text \<open>
  The numbers of a decoded record are kept as the expressions that produce them:
  \<open>parseFloat(s)\<close>, \<open>parseInt(s, 10)\<close> and \<open>n - 1\<close>; a date as the arguments of
  \<open>new Date\<close>.
\<close>

datatype js_number = ParseFloat jsstring | ParseInt jsstring | Minus1 js_number

datatype js_value =
  VString jsstring | VNumber js_number | VBoolean bool | VNull
| VDate js_number js_number js_number

definition substring :: "jsstring \<Rightarrow> nat \<Rightarrow> nat \<Rightarrow> jsstring" where
  "substring s a b = take (b - a) (drop a s)"

text \<open>
  The \<open>switch\<close> on the field type. \<open>Buffer.toString('utf8')\<close> and
  \<open>String.prototype.toUpperCase\<close> are the platform's: the parameters \<open>toStringUtf8\<close>
  and \<open>toUpperCase\<close>.
\<close>

definition fieldValue ::
  "(byte list \<Rightarrow> jsstring) \<Rightarrow> (jsstring \<Rightarrow> jsstring) \<Rightarrow> DbfField \<Rightarrow> byte list \<Rightarrow> js_value" where
  "fieldValue toStringUtf8 toUpperCase field fieldData =
     (let str = trim (toStringUtf8 fieldData)
      in if type_fld field = js ''C'' then VString str
         else if type_fld field = js ''N'' then
           (if str = [] then VNull
            else if decimalPlaces field > 0 then VNumber (ParseFloat str)
            else VNumber (ParseInt str))
         else if type_fld field = js ''F'' then
           (if str = [] then VNull else VNumber (ParseFloat str))
         else if type_fld field = js ''L'' then
           (let logicalChar = toUpperCase str
            in if logicalChar \<in> set [js ''T'', js ''Y''] then VBoolean True
               else if logicalChar \<in> set [js ''F'', js ''N''] then VBoolean False
               else VNull)
         else if type_fld field = js ''D'' then
           (if length str = 8
            then VDate (ParseInt (substring str 0 4)) (Minus1 (ParseInt (substring str 4 6)))
                       (ParseInt (substring str 6 8))
            else VNull)
         else if type_fld field = js ''M'' then VString str
         else VString str)"

text \<open>
  A record object: its own properties and its prototype. The literal \<open>{}\<close> has no own
  property and the prototype \<open>Object.prototype\<close>, whose accessor \<open>__proto__\<close> is the only
  setter an assignment can meet: \<open>record["__proto__"] = v\<close> replaces the prototype when
  \<open>v\<close> is \<open>null\<close> or an object (here a \<open>Date\<close>), does nothing for any other \<open>v\<close>, and
  creates no own property. Once the prototype is \<open>null\<close> nothing is inherited, and that
  assignment creates an own property like any other. Every other assignment creates the
  own property of that name or overwrites its value, so fields of the same name share
  one property. The order in which the properties are enumerated is not part of the
  model.
\<close>

datatype js_proto = ProtoObject | ProtoNull | ProtoDate js_number js_number js_number

record js_object =
  props :: "jsstring \<rightharpoonup> js_value"
  proto :: js_proto

type_synonym js_record = js_object

definition empty_object :: js_object where
  "empty_object = \<lparr> props = Map.empty, proto = ProtoObject \<rparr>"

definition set_property :: "js_object \<Rightarrow> jsstring \<Rightarrow> js_value \<Rightarrow> js_object" where
  "set_property obj key v =
     (if key = js ''__proto__'' \<and> proto obj \<noteq> ProtoNull
      then (case v of
              VNull \<Rightarrow> obj\<lparr> proto := ProtoNull \<rparr>
            | VDate y m d \<Rightarrow> obj\<lparr> proto := ProtoDate y m d \<rparr>
            | _ \<Rightarrow> obj)
      else obj\<lparr> props := (props obj)(key \<mapsto> v) \<rparr>)"

text \<open>
  \<open>LER_REGISTRO_DBF\<close>: \<open>null\<close> is \<open>None\<close>, and \<open>header\<close> is \<open>None\<close> when it is \<open>null\<close>.
  The \<open>for\<close> loop over the fields performs \<open>record[field.name] = value\<close> on the
  record built so far.
\<close>

definition recordDeleted :: "byte list \<Rightarrow> DBFHeader \<Rightarrow> nat \<Rightarrow> bool" where
  "recordDeleted buffer header recordIndex \<longleftrightarrow>
     (let recordOffset = headerSize header + (recordIndex * recordSize header)
      in index buffer recordOffset = Some 0x2A)"

definition LER_REGISTRO_DBF ::
  "(byte list \<Rightarrow> jsstring) \<Rightarrow> (jsstring \<Rightarrow> jsstring) \<Rightarrow> byte list \<Rightarrow> DBFHeader option \<Rightarrow> int
   \<Rightarrow> js_record option" where
  "LER_REGISTRO_DBF toStringUtf8 toUpperCase buffer header recordIndex =
     (case header of
        None \<Rightarrow> None
      | Some hdr \<Rightarrow>
          if recordIndex < 0 \<or> recordIndex \<ge> int (recordCount hdr) then None
          else (let recordOffset = headerSize hdr + (nat recordIndex * recordSize hdr)
                in if recordDeleted buffer hdr (nat recordIndex) then None
                   else Some (foldl (\<lambda>record field.
                          (let fieldOffset = recordOffset + 1 + offset field;
                               fieldData = slice buffer fieldOffset (fieldOffset + length_fld field)
                           in set_property record (name field)
                                (fieldValue toStringUtf8 toUpperCase field fieldData)))
                        empty_object (fields_hdr hdr))))"




definition sample_upper :: "jsstring \<Rightarrow> jsstring" where
  "sample_upper s = map (\<lambda>c. if 0x61 \<le> c \<and> c \<le> 0x7A then c - 0x20 else c) s"

subsection \<open>The conditions under which the header readers give up\<close>

text \<open>
  The field definitions sit at \<open>32, 64, 96, ...\<close>. A definition is visited when its
  position is below \<open>hdrSize - 1\<close> and no earlier position, nor its own, holds the
  terminator \<open>0x0D\<close>; its last byte read is the one at \<open>position + 17\<close>.
\<close>

definition terminator_at :: "byte list \<Rightarrow> nat \<Rightarrow> bool" where
  "terminator_at buffer position \<longleftrightarrow> index buffer position = Some 0x0D"

definition descriptor_overrun :: "byte list \<Rightarrow> nat \<Rightarrow> bool" where
  "descriptor_overrun buffer hdrSize \<longleftrightarrow>
     (\<exists>k \<in> {0..<hdrSize}. 32 + 32 * k + 1 < hdrSize
        \<and> (\<forall>j \<in> {0..<k + 1}. \<not> terminator_at buffer (32 + 32 * j))
        \<and> length buffer \<le> 32 + 32 * k + 17)"

definition u16_at :: "byte list \<Rightarrow> nat \<Rightarrow> nat" where
  "u16_at buffer offs = unat (buffer ! offs) + 256 * unat (buffer ! (offs + 1))"

text \<open>The same condition with the first position as a parameter, and without a bound on \<open>k\<close>.\<close>

definition overrun_from :: "byte list \<Rightarrow> nat \<Rightarrow> nat \<Rightarrow> bool" where
  "overrun_from buffer hdrSize position \<longleftrightarrow>
     (\<exists>k. position + 32 * k + 1 < hdrSize
        \<and> (\<forall>j \<le> k. \<not> terminator_at buffer (position + 32 * j))
        \<and> length buffer \<le> position + 32 * k + 17)"

text \<open>
  Two more tables for concrete evaluations. \<open>sample_no_fields\<close>: 33 bytes, header length
  33, record length 5, no record, the terminator at 32 and no field definition.
  \<open>sample_truncated\<close>: 40 bytes, header length 65, record length 2, cut inside its only
  field definition.
\<close>

definition sample_no_fields :: "byte list" where
  "sample_no_fields =
     [3, 25, 1, 1, 0, 0, 0, 0, 33, 0, 5, 0,
      0, 0, 0, 0, 0, 0, 0, 0, 0, 0, 0, 0, 0, 0, 0, 0, 0, 0, 0, 0, 0x0D]"

definition sample_truncated :: "byte list" where
  "sample_truncated =
     [3, 25, 1, 1, 0, 0, 0, 0, 65, 0, 2, 0,
      0, 0, 0, 0, 0, 0, 0, 0, 0, 0, 0, 0, 0, 0, 0, 0, 0, 0, 0, 0,
      0x41, 0x42, 0, 0, 0, 0, 0, 0]"

text \<open>
  \<open>sample_two_fields\<close>: a header of 97 bytes with two character fields of length 1,
  both named \<open>A\<close>, then a present record whose fields are blank and a deleted record.
\<close>

definition sample_two_fields :: "byte list" where
  "sample_two_fields =
     [3, 25, 1, 1, 2, 0, 0, 0, 97, 0, 3, 0,
      0, 0, 0, 0, 0, 0, 0, 0, 0, 0, 0, 0, 0, 0, 0, 0, 0, 0, 0, 0,
      0x41, 0, 0, 0, 0, 0, 0, 0, 0, 0, 0, 0x43, 0, 0, 0, 0,
      1, 0, 0, 0, 0, 0, 0, 0, 0, 0, 0, 0, 0, 0, 0, 0,
      0x41, 0, 0, 0, 0, 0, 0, 0, 0, 0, 0, 0x43, 0, 0, 0, 0,
      1, 0, 0, 0, 0, 0, 0, 0, 0, 0, 0, 0, 0, 0, 0, 0,
      0x0D,
      0x20, 0x20, 0x20,
      0x2A, 0x58, 0x59]"


section \<open>Properties of the cipher\<close>

subsection \<open>Masks, casts and rotations of a byte\<close>

lemma and_FF: "(x::32 word) AND 0xFF = take_bit 8 x"
  by (simp add: take_bit_eq_mask mask_eq_exp_minus_1)

lemma and_FF8: "(x::byte) AND 0xFF = x"
proof -
  have "x AND 0xFF = take_bit 8 x" by (simp add: take_bit_eq_mask mask_eq_exp_minus_1)
  also have "\<dots> = x" by (rule take_bit_word_eq_self) simp
  finally show ?thesis .
qed

lemma and_7: "unat ((x::32 word) AND 0x07) < 8"
proof -
  have "x AND 0x07 = take_bit 3 x" by (simp add: take_bit_eq_mask mask_eq_exp_minus_1)
  then show ?thesis using take_bit_nat_less_exp [of 3 "unat x"] by (simp add: unsigned_take_bit_eq)
qed

lemma bit_byte_high: "8 \<le> m \<Longrightarrow> \<not> bit (c::byte) m"
  by (auto dest: bit_imp_le_length)

lemma rotl_byte:
  assumes "k < 8"
  shows "(ucast (take_bit 8 (push_bit k (ucast (c::byte) :: 32 word) OR drop_bit (8 - k) (ucast c))) :: byte) = word_rotl k c"
proof (rule bit_word_eqI)
  fix n assume n: "n < LENGTH(8)"
  show "bit (ucast (take_bit 8 (push_bit k (ucast c :: 32 word) OR drop_bit (8 - k) (ucast c))) :: byte) n = bit (word_rotl k c) n"
  proof (cases "k \<le> n")
    case True
    have "(n + 8 - k) mod 8 = ((n - k) + 8) mod 8" using True by simp
    also have "\<dots> = n - k" using n by simp
    finally have "(n + 8 - k) mod 8 = n - k" .
    moreover have "\<not> bit c (8 + n - k)" using True by (intro bit_byte_high) simp
    moreover have "n - k < 32" using n by simp
    ultimately show ?thesis using n assms True
      by (simp add: bit_simps word_rotl_eq_word_rotr)
  next
    case False
    then have "(n + 8 - k) mod 8 = 8 + n - k" using n assms by simp
    moreover have "8 + n - k < 32" using n by simp
    ultimately show ?thesis using n assms False
      by (simp add: bit_simps word_rotl_eq_word_rotr)
  qed
qed

lemma rotr_byte:
  assumes "k < 8"
  shows "(ucast (take_bit 8 (drop_bit k (ucast (c::byte) :: 32 word) OR push_bit (8 - k) (ucast c))) :: byte) = word_rotr k c"
proof (rule bit_word_eqI)
  fix n assume n: "n < LENGTH(8)"
  show "bit (ucast (take_bit 8 (drop_bit k (ucast c :: 32 word) OR push_bit (8 - k) (ucast c))) :: byte) n = bit (word_rotr k c) n"
  proof (cases "n + k < 8")
    case True
    then have "(n + k) mod 8 = n + k" by simp
    moreover have "\<not> 8 - k \<le> n" using True by simp
    ultimately show ?thesis using n assms True
      by (simp add: bit_simps add.commute)
  next
    case False
    have "(n + k) mod 8 = ((n + k - 8) + 8) mod 8" using False by simp
    also have "\<dots> = n + k - 8" using n assms by simp
    finally have "(n + k) mod 8 = n + k - 8" .
    moreover have "\<not> bit c (k + n)" using False by (intro bit_byte_high) simp
    moreover have "8 - k \<le> n" "n + k - 8 < 32" using False n assms by simp_all
    ultimately show ?thesis using n assms False
      by (simp add: bit_simps)
  qed
qed


lemma mod_down: "(x mod 4294967296) mod 256 = x mod (256::int)"
  by (rule mod_mod_cancel) simp

lemma ucast_add_down: "(ucast (a + b :: 32 word) :: byte) = ucast a + ucast b"
proof transfer
  fix a b :: int
  have "(a + b) mod 256 = (a mod 4294967296 + b mod 4294967296) mod 256"
    by (rule mod_add_cong) (simp_all add: mod_down)
  then show "take_bit LENGTH(8) (take_bit LENGTH(32) (a + b)) =
        take_bit LENGTH(8) (take_bit LENGTH(32) a + take_bit LENGTH(32) b)"
    by (simp add: take_bit_eq_mod mod_down)
qed

lemma ucast_sub_down: "(ucast (a - b :: 32 word) :: byte) = ucast a - ucast b"
proof transfer
  fix a b :: int
  have "(a - b) mod 256 = (a mod 4294967296 - b mod 4294967296) mod 256"
    by (rule mod_diff_cong) (simp_all add: mod_down)
  then show "take_bit LENGTH(8) (take_bit LENGTH(32) (a - b)) =
        take_bit LENGTH(8) (take_bit LENGTH(32) a - take_bit LENGTH(32) b)"
    by (simp add: take_bit_eq_mod mod_down)
qed

lemma ucast_take8: "(ucast (take_bit 8 (a :: 32 word)) :: byte) = ucast a"
  by (rule bit_word_eqI) (simp add: bit_simps)

lemma ucast_byte_32: "(ucast (ucast (a :: 32 word) :: byte) :: 32 word) = take_bit 8 a"
  by (rule bit_word_eqI) (auto simp add: bit_simps)

lemma ucast_32_byte: "(ucast (ucast (c :: byte) :: 32 word) :: byte) = c"
  by (rule bit_word_eqI) (auto simp add: bit_simps)

lemmas rotr_byte' = rotr_byte [unfolded ucast_take8]
lemmas rotl_byte' = rotl_byte [unfolded ucast_take8]

lemma deCrypt_enCrypt_byte: "deCryptByte (enCryptByte c k) k = c"
proof -
  let ?s = "unat (k AND 0x07)"
  have s: "?s < 8" by (rule and_7)
  have e: "enCryptByte c k = word_rotr ?s c + ucast k"
    unfolding enCryptByte_def Let_def and_FF8 and_FF
    by (simp only: ucast_add_down ucast_take8 rotr_byte' [OF s])
  have d: "deCryptByte b k = word_rotl ?s (b - ucast k)" for b
  proof -
    have "take_bit 8 ((ucast b :: 32 word) - take_bit 8 k) = ucast (b - ucast k :: byte)"
      by (simp only: ucast_byte_32 [symmetric] ucast_sub_down ucast_take8 ucast_32_byte)
    then show ?thesis
      unfolding deCryptByte_def Let_def and_FF
      by (simp only: ucast_take8 rotl_byte' [OF s])
  qed
  show ?thesis by (simp add: e d)
qed


subsection \<open>The round trip\<close>

lemma getUint16LE_ok: "length K = 8 \<Longrightarrow> i < 7 \<Longrightarrow> \<exists>k. getUint16LE K i = Inr k"
  by (simp add: getUint16LE_def)

lemma hb_sxNextSeed_ok:
  assumes "length K = 8" "i < 7"
  shows "\<exists>s' k'. hb_sxNextSeed s K i = Inr (s', k')"
proof -
  obtain k where "getUint16LE K i = Inr k" using getUint16LE_ok [OF assms] by blast
  then show ?thesis by (simp add: hb_sxNextSeed_def Let_def)
qed

lemma initSeed_loop_ok:
  "length K = 8 \<Longrightarrow> \<exists>s'. initSeed_loop K i s = Inr s'"
proof (induction K i s rule: initSeed_loop.induct)
  case (1 keyVal i ulSeed)
  show ?case
  proof (cases "i < 7")
    case True
    then obtain k where k: "getUint16LE keyVal i = Inr k"
      using getUint16LE_ok "1.prems" by blast
    then obtain s1 where s1: "initSeed_step keyVal ulSeed i = Inr s1"
      by (simp add: initSeed_step_def Let_def)
    from "1.IH" [OF True s1 "1.prems"] obtain s' where "initSeed_loop keyVal (i + 1) s1 = Inr s'" ..
    then show ?thesis using True s1 by (subst initSeed_loop.simps) simp
  next
    case False
    then show ?thesis by (subst initSeed_loop.simps) simp
  qed
qed

lemma hb_sxInitSeed_ok:
  assumes "length K = 8"
  shows "\<exists>s k. hb_sxInitSeed K = Inr (s, k)"
proof -
  obtain s' where "initSeed_loop K 0 0 = Inr s'" using initSeed_loop_ok [OF assms] by blast
  then show ?thesis by (simp add: hb_sxInitSeed_def Let_def)
qed

lemma loop_roundtrip:
  "length K = 8 \<Longrightarrow> i < 7 \<Longrightarrow>
   \<exists>C. enCrypt_loop K B s k i = Inr C \<and> deCrypt_loop K C s k i = Inr B"
proof (induction B arbitrary: s k i)
  case Nil
  then show ?case by simp
next
  case (Cons b B)
  obtain s' k' where n: "hb_sxNextSeed s K i = Inr (s', k')"
    using hb_sxNextSeed_ok [OF Cons.prems] by blast
  have "(i + 1) mod 7 < 7" by simp
  from Cons.IH [OF Cons.prems(1) this] obtain C where
    C: "enCrypt_loop K B s' k' ((i + 1) mod 7) = Inr C"
       "deCrypt_loop K C s' k' ((i + 1) mod 7) = Inr B" by blast
  show ?case using n C by (simp add: deCrypt_enCrypt_byte)
qed

text \<open>
  Claim C1. For every 8-byte key \<open>K\<close> and every byte sequence \<open>B\<close> (the empty one
  included), \<open>hb_sxEnCrypt\<close> returns a ciphertext, and \<open>hb_sxDeCrypt\<close> of that
  ciphertext with the same key returns \<open>B\<close>, byte for byte.
\<close>

theorem sx_roundtrip:
  assumes "length K = 8"
  shows "\<exists>C. hb_sxEnCrypt B K = Inr C \<and> hb_sxDeCrypt C K = Inr B"
proof -
  obtain s k where i: "hb_sxInitSeed K = Inr (s, k)" using hb_sxInitSeed_ok [OF assms] by blast
  have "(0::nat) < 7" by simp
  from loop_roundtrip [OF assms this] obtain C where
    "enCrypt_loop K B s k 0 = Inr C" "deCrypt_loop K C s k 0 = Inr B" by blast
  then show ?thesis using i by (simp add: hb_sxEnCrypt_def hb_sxDeCrypt_def)
qed

text \<open>The round trip at the key \<open>05 06 05 06 05 06 05 06\<close> and three bytes.\<close>

theorem sx_roundtrip_witness:
  "length [5, 6, 5, 6, 5, 6, 5, 6 :: byte] = 8 \<and>
   (\<exists>C. hb_sxEnCrypt [1, 2, 3] [5, 6, 5, 6, 5, 6, 5, 6] = Inr C \<and>
        hb_sxDeCrypt C [5, 6, 5, 6, 5, 6, 5, 6] = Inr [1, 2, 3])"
  using sx_roundtrip [of "[5, 6, 5, 6, 5, 6, 5, 6]" "[1, 2, 3]"] by simp

subsection \<open>The seed functions against the specification's wording\<close>

lemma initSeed_at_0506: "hb_sxInitSeed [5, 6, 5, 6, 5, 6, 5, 6] = Inr (100992262, 1541)"
  by (simp add: hb_sxInitSeed_def initSeed_loop.simps initSeed_step_def getUint16LE_def)

lemma spec_initSeed_at_0506: "spec_initSeed [5, 6, 5, 6, 5, 6, 5, 6] = (3936814825, 60071)"
  by (simp add: spec_initSeed_def spec_initSeed_round_def spec_k16_def)

text \<open>
  Claim C2. Seed initialisation swaps the halves, multiplies by 17 and adds the key
  window (wrapping in 32 bits) seven times, sets the low bit, takes the round key and
  swaps the halves again. At the key \<open>05 06 05 06 05 06 05 06\<close> the algorithm so worded
  gives the seed \<open>3936814825\<close> and the round key \<open>60071\<close>, and \<open>hb_sxInitSeed\<close>
  returns the seed \<open>100992262\<close> and the round key \<open>1541\<close>: it shifts by \<open>0 * 17\<close>
  where it is to multiply by 17, and combines the key window with \<open>|\<close>.
\<close>

theorem hb_sxInitSeed_not_spec:
  "hb_sxInitSeed [5, 6, 5, 6, 5, 6, 5, 6] = Inr (100992262, 1541)
   \<and> spec_initSeed [5, 6, 5, 6, 5, 6, 5, 6] = (3936814825, 60071)
   \<and> hb_sxInitSeed [5, 6, 5, 6, 5, 6, 5, 6] \<noteq> Inr (spec_initSeed [5, 6, 5, 6, 5, 6, 5, 6])"
  by (simp add: initSeed_at_0506 spec_initSeed_at_0506)

lemma nextSeed_at_first:
  "hb_sxNextSeed 100992262 [5, 6, 5, 6, 5, 6, 5, 6] 0 = Inr (4001322894, 61055)"
  by (simp add: hb_sxNextSeed_def getUint16LE_def RND_MUL1_def RND_MUL2_def)

lemma spec_t2_at_first: "spec_t2 100992262 = 13021867"
  by (simp add: spec_t2_def RND_MUL1_def RND_MUL2_def drop_bit_eq_div)

lemma spec_newHi_at_first: "spec_newHi 100992262 = 39116"
  by (simp add: spec_newHi_def spec_t2_at_first RND_MUL1_def drop_bit_eq_div)

lemma spec_newSeed_at_first: "spec_newSeed 100992262 = 2563528590"
  by (simp add: spec_newSeed_def spec_newHi_at_first RND_MUL1_def)

text \<open>
  Claim C3. In the keystream step \<open>t2\<close> and the new high half are sums (wrapping in
  32 bits), and the products wrap modulo \<open>2^32\<close>. The seed \<open>100992262\<close> is the one
  \<open>hb_sxInitSeed\<close> returns for the key \<open>05 06 05 06 05 06 05 06\<close>, which \<open>hb_sxEnCrypt\<close>
  hands to \<open>hb_sxNextSeed\<close> after the first byte. There the sums give \<open>t2 = 13021867\<close>,
  the high half \<open>39116\<close> and the new seed \<open>2563528590\<close>; \<open>hb_sxNextSeed\<close> combines
  both with \<open>|\<close> and returns the seed \<open>4001322894\<close>, whose high half is \<open>61055\<close>.
\<close>

theorem hb_sxNextSeed_not_spec:
  "hb_sxInitSeed [5, 6, 5, 6, 5, 6, 5, 6] = Inr (100992262, 1541)
   \<and> hb_sxNextSeed 100992262 [5, 6, 5, 6, 5, 6, 5, 6] 0 = Inr (4001322894, 61055)
   \<and> drop_bit 16 (4001322894 :: 32 word) = 61055
   \<and> spec_t2 100992262 = 13021867 \<and> spec_newHi 100992262 = 39116
   \<and> spec_newSeed 100992262 = 2563528590"
  by (simp add: initSeed_at_0506 nextSeed_at_first spec_t2_at_first spec_newHi_at_first
        spec_newSeed_at_first drop_bit_eq_div)


section \<open>Properties of the data section and of the pipeline\<close>

subsection \<open>Writing the data section\<close>

lemma write_bytes_length [simp]: "length (write_bytes f p bs) = length f"
  by (induction bs arbitrary: f p) simp_all

lemma write_bytes_nth:
  "j < length f \<Longrightarrow>
   write_bytes f p bs ! j = (if p \<le> j \<and> j < p + length bs then bs ! (j - p) else f ! j)"
proof (induction bs arbitrary: f p)
  case Nil
  then show ?case by auto
next
  case (Cons b bs)
  let ?f = "if p < length f then f[p := b] else f"
  have len: "j < length ?f" using Cons.prems by simp
  show ?case
  proof (cases "j = p")
    case True
    then show ?thesis using Cons.IH [OF len, of "p + 1"] Cons.prems by simp
  next
    case False
    then show ?thesis using Cons.IH [OF len, of "p + 1"] Cons.prems
      by (auto simp add: nth_Cons')
  qed
qed

lemma slice_all [simp]: "slice b 0 (length b) = b"
  by (simp add: slice_def)

lemma slice0_eq: "slice0 h a = (length h, h @ [h ! a])"
  by (simp add: slice0_def alloc_def)

lemma getDbfDataSection_eq: "getDbfDataSection b hl n rl = take (n * rl) (drop hl b)"
  by (simp add: getDbfDataSection_def slice_def)

lemma write_back_same: "write_bytes b hl (take k (drop hl b)) = b"
proof (rule nth_equalityI)
  show "length (write_bytes b hl (take k (drop hl b))) = length b" by simp
next
  fix i assume "i < length (write_bytes b hl (take k (drop hl b)))"
  then have i: "i < length b" by simp
  show "write_bytes b hl (take k (drop hl b)) ! i = b ! i"
    using i by (auto simp add: write_bytes_nth)
qed

text \<open>
  Claim C8. For every buffer and header values whose declared payload range fits inside
  the buffer, writing the extracted payload back in place gives the buffer itself:
  \<open>setDbfDataSection\<close> returns the buffer it was given, and the store (so every byte of
  that buffer) is as before.
\<close>

theorem payload_write_back:
  assumes "buf < length h" and "hl + n * rl \<le> length (h ! buf)"
  shows "setDbfDataSection h buf (Some (getDbfDataSection (h ! buf) hl n rl)) hl = Inr (buf, h)"
  using assms by (simp add: setDbfDataSection_def getDbfDataSection_eq write_back_same)

text \<open>The metadata of the sample table.\<close>

lemma sample_table_meta:
  "readDbfMetadata d (sample_table st) =
     Inr (\<lparr> firstByte = unat st, numRecords = 2, headerLength = 33, recordLength = 1 \<rparr>, [])"
  by (simp add: readDbfMetadata_def sample_table_def bindE_def getUint8_def getUint16_def
        getUint32_def readFields_loop.simps)

theorem payload_write_back_witness:
  "(0::nat) < length [sample_table 3] \<and> 33 + 2 * 1 \<le> length ([sample_table 3] ! 0) \<and>
   setDbfDataSection [sample_table 3] 0 (Some (getDbfDataSection ([sample_table 3] ! 0) 33 2 1)) 33
     = Inr (0, [sample_table 3])"
proof -
  have a: "(0::nat) < length [sample_table 3]" by simp
  have b: "33 + 2 * 1 \<le> length ([sample_table 3] ! 0)" by (simp add: sample_table_def)
  show ?thesis using a b payload_write_back [OF a b] by simp
qed

subsection \<open>Decrypting an encrypted table\<close>

lemma createKeyBytes_length: "length (createKeyBytes k) = 8"
  by (cases k) simp_all

lemma deCrypt_loop_ok:
  "length K = 8 \<Longrightarrow> i < 7 \<Longrightarrow> \<exists>D. deCrypt_loop K C s k i = Inr D \<and> length D = length C"
proof (induction C arbitrary: s k i)
  case Nil
  then show ?case by simp
next
  case (Cons c C)
  obtain s' k' where n: "hb_sxNextSeed s K i = Inr (s', k')"
    using hb_sxNextSeed_ok [OF Cons.prems] by blast
  have "(i + 1) mod 7 < 7" by simp
  from Cons.IH [OF Cons.prems(1) this] obtain D where
    "deCrypt_loop K C s' k' ((i + 1) mod 7) = Inr D" "length D = length C" by blast
  then show ?case using n by simp
qed

lemma hb_sxDeCrypt_ok:
  assumes "length K = 8"
  shows "\<exists>D. hb_sxDeCrypt C K = Inr D \<and> length D = length C"
proof -
  obtain s k where i: "hb_sxInitSeed K = Inr (s, k)" using hb_sxInitSeed_ok [OF assms] by blast
  have "(0::nat) < 7" by simp
  from deCrypt_loop_ok [OF assms this] obtain D where
    "deCrypt_loop K C s k 0 = Inr D" "length D = length C" by blast
  then show ?thesis using i by (simp add: hb_sxDeCrypt_def)
qed

lemma process_step_decrypt:
  assumes "length K = 8" and "0 < length (h ! cur)"
  shows "\<exists>p. process_step h m cur 0x06 dat K True =
           (None, cur, h[cur := (h ! cur)[0 := 3]],
            m\<lparr> processedDataBytes := Some p, statusMessage := Some msg_decrypted \<rparr>)
         \<and> length p = length dat"
proof -
  obtain p where p: "hb_sxDeCrypt dat K = Inr p" "length p = length dat"
    using hb_sxDeCrypt_ok [OF assms(1)] by blast
  have "process_step h m cur 0x06 dat K True =
           (None, cur, h[cur := (h ! cur)[0 := 3]],
            m\<lparr> processedDataBytes := Some p, statusMessage := Some msg_decrypted \<rparr>)"
    using p assms(2) by (simp add: process_step_def setDbfFirstByte_def)
  then show ?thesis using p(2) by blast
qed

lemma parse_step_frame:
  assumes "parse_step dbfParse h m fb hl dec = (recs, h', m')"
  shows "length h \<le> length h' \<and> (\<forall>a < length h. h' ! a = h ! a)
         \<and> processedDataBytes m' = processedDataBytes m"
  using assms
  by (auto simp add: parse_step_def slice0_eq setDbfDataSection_def nth_append Let_def
      split: if_splits option.splits sum.splits prod.splits)


text \<open>
  Claim C7. For every valid DBF buffer whose status byte is \<open>0x06\<close>, the pipeline in
  decrypt mode returns a new buffer of the same length that differs from the input only
  in the status byte, which is \<open>0x03\<close>, and inside the payload range
  \<open>[headerLength, headerLength + numRecords * recordLength)\<close>; every buffer that existed
  before the call, the caller's input among them, is unchanged.
\<close>

theorem decrypt_frame:
  assumes "fileBuf < length h"
      and "valid_dbf decodeAscii (h ! fileBuf)"
      and "readDbfMetadata decodeAscii (h ! fileBuf) = Inr (header, flds)"
      and "firstByte header = 0x06"
  shows "\<exists>r h' m'.
           processDbfFile decodeAscii dbfParse h m fileBuf keyData True = (Inr r, h', m')
           \<and> (\<forall>a < length h. h' ! a = h ! a)
           \<and> fileBuffer r = length h
           \<and> length (h' ! fileBuffer r) = length (h ! fileBuf)
           \<and> (h' ! fileBuffer r) ! 0 = 0x03
           \<and> (\<forall>i < length (h ! fileBuf).
                 i \<noteq> 0 \<and> \<not> (headerLength header \<le> i
                     \<and> i < headerLength header + numRecords header * recordLength header)
                 \<longrightarrow> (h' ! fileBuffer r) ! i = (h ! fileBuf) ! i)"
proof -
  let ?buf = "h ! fileBuf"
  let ?hl = "headerLength header"
  let ?cur = "length h"
  let ?h1 = "h @ [?buf]"
  let ?dat = "getDbfDataSection ?buf ?hl (numRecords header) (recordLength header)"
  have v: "33 \<le> ?hl" "?hl + numRecords header * recordLength header \<le> length ?buf"
    using assms(2,3) by (simp_all add: valid_dbf_def)
  then have nz: "0 < length ?buf" by linarith
  then have pos: "0 < length (?h1 ! ?cur)" by simp
  have dl: "length ?dat = numRecords header * recordLength header"
    using v by (simp add: getDbfDataSection_eq)
  obtain p where
    ps: "process_step ?h1 m ?cur 0x06 ?dat (createKeyBytes keyData) True =
           (None, ?cur, ?h1[?cur := (?h1 ! ?cur)[0 := 3]],
            m\<lparr> processedDataBytes := Some p, statusMessage := Some msg_decrypted \<rparr>)"
    and pl: "length p = length ?dat"
    using process_step_decrypt [OF createKeyBytes_length pos] by blast
  let ?m2 = "m\<lparr> processedDataBytes := Some p, statusMessage := Some msg_decrypted \<rparr>"
  let ?out = "write_bytes (?buf[0 := 3]) ?hl p"
  let ?h3 = "h @ [?out]"
  obtain recs h4 m4 where pa: "parse_step dbfParse ?h3 ?m2 fileBuf ?hl True = (recs, h4, m4)"
    by (cases "parse_step dbfParse ?h3 ?m2 fileBuf ?hl True") auto
  from parse_step_frame [OF pa]
  have fr: "\<forall>a < length ?h3. h4 ! a = ?h3 ! a" by blast
  have run: "processDbfFile decodeAscii dbfParse h m fileBuf keyData True =
               (Inr \<lparr> fields_res = flds, records = recs, fileBuffer = ?cur,
                      status = statusMessage m4 \<rparr>, h4, m4)"
    using assms(3,4) ps pa
    by (simp add: processDbfFile_def slice0_eq setDbfDataSection_def)
  have old: "\<forall>a < length h. h4 ! a = h ! a"
    using fr by (simp add: nth_append)
  have new: "h4 ! ?cur = ?out" using fr by simp
  have n0: "?out ! 0 = 0x03" using v(1) nz by (simp add: write_bytes_nth)
  have rest: "\<forall>i < length ?buf.
                i \<noteq> 0 \<and> \<not> (?hl \<le> i \<and> i < ?hl + numRecords header * recordLength header)
                \<longrightarrow> ?out ! i = ?buf ! i"
    using pl dl by (simp add: write_bytes_nth)
  show ?thesis using run old new n0 rest by simp
qed


lemma sample_table_valid: "valid_dbf d (sample_table st)"
  by (simp add: valid_dbf_def sample_table_meta) (simp add: sample_table_def)

text \<open>The frame property at the sample table marked encrypted.\<close>

theorem decrypt_frame_witness:
  "(0::nat) < length [sample_table 6]
   \<and> valid_dbf sample_decode ([sample_table 6] ! 0)
   \<and> readDbfMetadata sample_decode ([sample_table 6] ! 0) =
       Inr (\<lparr> firstByte = 6, numRecords = 2, headerLength = 33, recordLength = 1 \<rparr>, [])
   \<and> firstByte \<lparr> firstByte = 6, numRecords = 2, headerLength = 33, recordLength = 1 \<rparr> = 0x06
   \<and> (\<exists>r h' m'.
         processDbfFile sample_decode sample_parse [sample_table 6] fresh_module 0 sample_key True
           = (Inr r, h', m')
         \<and> (\<forall>a < length [sample_table 6]. h' ! a = [sample_table 6] ! a)
         \<and> fileBuffer r = length [sample_table 6]
         \<and> length (h' ! fileBuffer r) = length ([sample_table 6] ! 0)
         \<and> (h' ! fileBuffer r) ! 0 = 0x03
         \<and> (\<forall>i < length ([sample_table 6] ! 0).
               i \<noteq> 0 \<and> \<not> (headerLength \<lparr> firstByte = 6, numRecords = 2, headerLength = 33, recordLength = 1 \<rparr> \<le> i
                   \<and> i < headerLength \<lparr> firstByte = 6, numRecords = 2, headerLength = 33, recordLength = 1 \<rparr>
                         + numRecords \<lparr> firstByte = 6, numRecords = 2, headerLength = 33, recordLength = 1 \<rparr>
                           * recordLength \<lparr> firstByte = 6, numRecords = 2, headerLength = 33, recordLength = 1 \<rparr>)
               \<longrightarrow> (h' ! fileBuffer r) ! i = ([sample_table 6] ! 0) ! i))"
proof -
  let ?hd = "\<lparr> firstByte = 6, numRecords = 2, headerLength = 33, recordLength = 1 \<rparr>"
  have a: "(0::nat) < length [sample_table 6]" by simp
  have b: "valid_dbf sample_decode ([sample_table 6] ! 0)" by (simp add: sample_table_valid)
  have c: "readDbfMetadata sample_decode ([sample_table 6] ! 0) = Inr (?hd, [])"
    by (simp add: sample_table_meta)
  have d: "firstByte ?hd = 0x06" by simp
  from decrypt_frame [OF a b c d, of sample_parse fresh_module sample_key]
  show ?thesis using a b c d by blast
qed

subsection \<open>The pipeline on a plain table, and the module variables\<close>

lemma sample_key_bytes: "createKeyBytes sample_key = [5, 6, 5, 6, 5, 6, 5, 6]"
  by (simp add: sample_key_def upt_rec)


lemma enc_sample: "hb_sxEnCrypt [0x20, 0x2A] [5, 6, 5, 6, 5, 6, 5, 6] = Inr [6, 211]"
  by (simp add: hb_sxEnCrypt_def initSeed_at_0506 hb_sxNextSeed_def getUint16LE_def
        RND_MUL1_def RND_MUL2_def enCryptByte_def)


lemma plain_fresh:
  "processDbfFile sample_decode sample_parse [sample_table 3] fresh_module 0 sample_key False
     = (Inl TypeError, [sample_table 3, sample_table 3], fresh_module)"
  by (simp add: processDbfFile_def slice0_eq sample_table_meta process_step_def
        setDbfDataSection_def fresh_module_def)

lemma encrypted_fresh:
  "processDbfFile sample_decode sample_parse [sample_table 6] fresh_module 0 sample_key False
     = (Inr \<lparr> fields_res = [], records = [], fileBuffer = 1, status = Some msg_encrypted \<rparr>,
        [sample_table 6, take 33 (sample_table 6) @ [6, 211]],
        \<lparr> processedDataBytes = Some [6, 211], statusMessage = Some msg_encrypted \<rparr>)"
  apply (simp add: processDbfFile_def slice0_eq sample_table_meta process_step_def
        fresh_module_def sample_key_bytes)
  apply (simp add: getDbfDataSection_eq sample_table_def enc_sample setDbfFirstByte_def
        setDbfDataSection_def parse_step_def)
  done

lemma plain_stale:
  "processDbfFile sample_decode sample_parse [sample_table 3]
       \<lparr> processedDataBytes = Some [6, 211], statusMessage = Some msg_encrypted \<rparr> 0 sample_key False
     = (Inr \<lparr> fields_res = [], records = [], fileBuffer = 1, status = Some msg_encrypted \<rparr>,
        [sample_table 3, take 33 (sample_table 3) @ [6, 211]],
        \<lparr> processedDataBytes = Some [6, 211], statusMessage = Some msg_encrypted \<rparr>)"
  apply (simp add: processDbfFile_def slice0_eq sample_table_meta process_step_def
        setDbfDataSection_def parse_step_def)
  apply (simp add: sample_table_def)
  done

text \<open>
  Claim C4. For every valid DBF buffer whose status byte is \<open>0x03\<close>, the pipeline in
  encrypt mode encrypts the payload and returns a buffer whose status byte is \<open>0x06\<close>.
  The sample table with status \<open>0x03\<close> is valid and its payload encrypts to
  \<open>06 D3\<close>; on a fresh module the call ends in a \<open>TypeError\<close> and returns no buffer,
  and with bytes left in \<open>processedDataBytes\<close> it returns a buffer whose status byte is
  still \<open>0x03\<close> and whose payload is those left-over bytes, not the encrypted payload:
  step 3 of \<open>processDbfFile\<close> acts on a first byte \<open>0x06\<close> only.
\<close>

theorem encrypt_plain_table:
  "valid_dbf sample_decode (sample_table 3) \<and> sample_table 3 ! 0 = 0x03
   \<and> hb_sxEnCrypt (getDbfDataSection (sample_table 3) 33 2 1) (createKeyBytes sample_key)
       = Inr [6, 211]
   \<and> processDbfFile sample_decode sample_parse [sample_table 3] fresh_module 0 sample_key False
       = (Inl TypeError, [sample_table 3, sample_table 3], fresh_module)
   \<and> processDbfFile sample_decode sample_parse [sample_table 3]
         \<lparr> processedDataBytes = Some [1, 2], statusMessage = None \<rparr> 0 sample_key False
       = (Inr \<lparr> fields_res = [], records = [], fileBuffer = 1, status = None \<rparr>,
          [sample_table 3, take 33 (sample_table 3) @ [1, 2]],
          \<lparr> processedDataBytes = Some [1, 2], statusMessage = None \<rparr>)
   \<and> (take 33 (sample_table 3) @ [1, 2]) ! 0 = (0x03 :: byte)"
proof -
  have "processDbfFile sample_decode sample_parse [sample_table 3]
         \<lparr> processedDataBytes = Some [1, 2], statusMessage = None \<rparr> 0 sample_key False
       = (Inr \<lparr> fields_res = [], records = [], fileBuffer = 1, status = None \<rparr>,
          [sample_table 3, take 33 (sample_table 3) @ [1, 2]],
          \<lparr> processedDataBytes = Some [1, 2], statusMessage = None \<rparr>)"
    by (simp add: processDbfFile_def slice0_eq sample_table_meta process_step_def
          setDbfDataSection_def parse_step_def)
       (simp add: sample_table_def)
  moreover have "sample_table 3 ! 0 = 0x03" "(take 33 (sample_table 3) @ [1, 2]) ! 0 = (0x03 :: byte)"
    by (simp_all add: sample_table_def)
  moreover have "hb_sxEnCrypt (getDbfDataSection (sample_table 3) 33 2 1)
                   (createKeyBytes sample_key) = Inr [6, 211]"
    by (simp add: getDbfDataSection_eq sample_key_bytes) (simp add: sample_table_def enc_sample)
  ultimately show ?thesis
    using plain_fresh sample_table_valid [of sample_decode 3] by simp
qed

text \<open>
  Claim C5. Two calls of the pipeline with equal arguments give byte-identical results,
  whatever earlier calls left behind. The call on the plain sample table ends in a
  \<open>TypeError\<close> on a fresh module; after a call on the encrypted sample table, the same
  call with the same arguments returns a buffer, whose payload is the \<open>06 D3\<close> that the
  earlier call left in the module variable \<open>processedDataBytes\<close>.
\<close>

theorem leftover_state_changes_result:
  "processDbfFile sample_decode sample_parse [sample_table 3] fresh_module 0 sample_key False
     = (Inl TypeError, [sample_table 3, sample_table 3], fresh_module)
   \<and> snd (snd (processDbfFile sample_decode sample_parse [sample_table 6] fresh_module 0
                    sample_key False))
       = \<lparr> processedDataBytes = Some [6, 211], statusMessage = Some msg_encrypted \<rparr>
   \<and> processDbfFile sample_decode sample_parse [sample_table 3]
         (snd (snd (processDbfFile sample_decode sample_parse [sample_table 6] fresh_module 0
                      sample_key False))) 0 sample_key False
       = (Inr \<lparr> fields_res = [], records = [], fileBuffer = 1, status = Some msg_encrypted \<rparr>,
          [sample_table 3, take 33 (sample_table 3) @ [6, 211]],
          \<lparr> processedDataBytes = Some [6, 211], statusMessage = Some msg_encrypted \<rparr>)"
  by (simp add: plain_fresh encrypted_fresh plain_stale)

section \<open>Properties of the record decoder\<close>


lemma sample_table_header:
  "CHECA_HEADER_DBF (sample_table st) =
     Some \<lparr> version = unat st, lastUpdate = (2025, 0, 1), recordCount = 2, headerSize = 33,
            recordSize = 1, fields_hdr = [], hasCodePage = False, codePage = None \<rparr>"
  by (simp add: CHECA_HEADER_DBF_def CHECA_try_def bindE_def readUInt8_def readUInt16LE_def
        readUInt32LE_def PROCESSA_CAMPOS_DBF_def PROCESSA_loop.simps VERIFICA_CODE_PAGE_def
        index_def sample_table_def)





text \<open>
  In the sample table record 1 starts with \<open>0x2A\<close> and index 2 is outside
  \<open>[0, recordCount)\<close>: \<open>LER_REGISTRO_DBF\<close> returns the same \<open>null\<close> for both.
\<close>

theorem deleted_same_as_out_of_range:
  "index (sample_table 3) (33 + 1 * 1) = Some 0x2A
   \<and> LER_REGISTRO_DBF sample_decode sample_upper (sample_table 3)
         (CHECA_HEADER_DBF (sample_table 3)) 1 = None
   \<and> LER_REGISTRO_DBF sample_decode sample_upper (sample_table 3)
         (CHECA_HEADER_DBF (sample_table 3)) 2 = None"
  by (simp add: sample_table_header LER_REGISTRO_DBF_def recordDeleted_def index_def)
     (simp add: sample_table_def)

lemma dom_set_property_upper:
  "dom (props (set_property obj k v)) \<subseteq> insert k (dom (props obj))"
  by (auto simp add: set_property_def split: js_value.splits if_splits)

lemma dom_set_property_lower:
  "dom (props obj) \<subseteq> dom (props (set_property obj k v))"
  by (auto simp add: set_property_def split: js_value.splits)

lemma dom_set_property_key:
  "k \<noteq> js ''__proto__'' \<Longrightarrow> k \<in> dom (props (set_property obj k v))"
  by (simp add: set_property_def)

lemma dom_foldl_upper:
  "dom (props (foldl (\<lambda>r f. set_property r (name f) (val f)) obj fs))
     \<subseteq> dom (props obj) \<union> name ` set fs"
proof (induction fs arbitrary: obj)
  case Nil
  then show ?case by simp
next
  case (Cons f fs)
  show ?case
    using Cons.IH [of "set_property obj (name f) (val f)"]
      dom_set_property_upper [of obj "name f" "val f"]
    by auto
qed

lemma dom_foldl_mono:
  "dom (props obj) \<subseteq> dom (props (foldl (\<lambda>r f. set_property r (name f) (val f)) obj fs))"
proof (induction fs arbitrary: obj)
  case Nil
  then show ?case by simp
next
  case (Cons f fs)
  show ?case
    using Cons.IH [of "set_property obj (name f) (val f)"]
      dom_set_property_lower [of obj "name f" "val f"]
    by auto
qed

lemma dom_foldl_lower:
  "name ` set fs - {js ''__proto__''}
     \<subseteq> dom (props (foldl (\<lambda>r f. set_property r (name f) (val f)) obj fs))"
proof (induction fs arbitrary: obj)
  case Nil
  then show ?case by simp
next
  case (Cons f fs)
  have here: "name f \<noteq> js ''__proto__'' \<Longrightarrow>
      name f \<in> dom (props (foldl (\<lambda>r f. set_property r (name f) (val f))
                                (set_property obj (name f) (val f)) fs))"
    using dom_set_property_key [of "name f" obj "val f"]
      dom_foldl_mono [of "set_property obj (name f) (val f)" val fs]
    by blast
  show ?case
    using Cons.IH [of "set_property obj (name f) (val f)"] here by auto
qed

text \<open>
  The present record of \<open>sample_two_fields\<close>: an object with the one property \<open>A\<close>, the
  empty string, for its two blank fields named \<open>A\<close>.
\<close>

lemma sample_two_fields_header:
  "CHECA_HEADER_DBF sample_two_fields =
     Some \<lparr> version = 3, lastUpdate = (2025, 0, 1), recordCount = 2, headerSize = 97,
            recordSize = 3,
            fields_hdr =
              [\<lparr> name = [0x41], type_fld = [0x43], length_fld = 1, decimalPlaces = 0,
                  offset = 0 \<rparr>,
               \<lparr> name = [0x41], type_fld = [0x43], length_fld = 1, decimalPlaces = 0,
                  offset = 1 \<rparr>],
            hasCodePage = False, codePage = None \<rparr>"
  by (simp add: CHECA_HEADER_DBF_def CHECA_try_def bindE_def readUInt8_def readUInt16LE_def
        readUInt32LE_def PROCESSA_CAMPOS_DBF_def PROCESSA_loop.simps VERIFICA_CODE_PAGE_def
        index_def fieldName_def fromCharCode_def trim_def js_whitespace_def upt_rec
        sample_two_fields_def)

lemma sample_two_fields_present:
  "LER_REGISTRO_DBF sample_decode sample_upper sample_two_fields
     (CHECA_HEADER_DBF sample_two_fields) 0
   = Some \<lparr> props = [[0x41] \<mapsto> VString []], proto = ProtoObject \<rparr>"
  by (simp add: sample_two_fields_header LER_REGISTRO_DBF_def recordDeleted_def index_def
        empty_object_def set_property_def fieldValue_def js_def slice_def sample_decode_def
        trim_def js_whitespace_def)
     (simp add: sample_two_fields_def js_whitespace_def)

text \<open>
  Claim C9, amended. For a record index inside \<open>[0, recordCount)\<close> whose record starts
  with \<open>0x2A\<close>, \<open>LER_REGISTRO_DBF\<close> returns \<open>null\<close>; it returns the same \<open>null\<close> for
  an index outside \<open>[0, recordCount)\<close> and for a \<open>null\<close> header; and for an index inside
  the range whose record is not deleted it returns a record object, blank fields or
  not, whose own properties are named after fields of the header and include every
  field name other than \<open>__proto__\<close>. So a deleted record is distinguishable from a
  present one, and not from the other failures.
\<close>

theorem deleted_record_is_null:
  "(0 \<le> i \<and> i < int (recordCount hdr) \<and> recordDeleted buffer hdr (nat i)
      \<longrightarrow> LER_REGISTRO_DBF s u buffer (Some hdr) i = None)
   \<and> (i < 0 \<or> int (recordCount hdr) \<le> i
      \<longrightarrow> LER_REGISTRO_DBF s u buffer (Some hdr) i = None)
   \<and> LER_REGISTRO_DBF s u buffer None i = None
   \<and> (0 \<le> i \<and> i < int (recordCount hdr) \<and> \<not> recordDeleted buffer hdr (nat i)
      \<longrightarrow> (\<exists>r. LER_REGISTRO_DBF s u buffer (Some hdr) i = Some r
                \<and> dom (props r) \<subseteq> name ` set (fields_hdr hdr)
                \<and> name ` set (fields_hdr hdr) - {js ''__proto__''} \<subseteq> dom (props r)))"
proof (intro conjI impI)
  assume "0 \<le> i \<and> i < int (recordCount hdr) \<and> recordDeleted buffer hdr (nat i)"
  then show "LER_REGISTRO_DBF s u buffer (Some hdr) i = None"
    by (simp add: LER_REGISTRO_DBF_def)
next
  assume "i < 0 \<or> int (recordCount hdr) \<le> i"
  then show "LER_REGISTRO_DBF s u buffer (Some hdr) i = None"
    by (auto simp add: LER_REGISTRO_DBF_def)
next
  show "LER_REGISTRO_DBF s u buffer None i = None"
    by (simp add: LER_REGISTRO_DBF_def)
next
  assume a: "0 \<le> i \<and> i < int (recordCount hdr) \<and> \<not> recordDeleted buffer hdr (nat i)"
  let ?val = "\<lambda>field. fieldValue s u field
                 (slice buffer (headerSize hdr + nat i * recordSize hdr + 1 + offset field)
                    (headerSize hdr + nat i * recordSize hdr + 1 + offset field
                     + length_fld field))"
  let ?r = "foldl (\<lambda>r f. set_property r (name f) (?val f)) empty_object (fields_hdr hdr)"
  have r: "LER_REGISTRO_DBF s u buffer (Some hdr) i = Some ?r"
    using a by (simp add: LER_REGISTRO_DBF_def Let_def)
  have up: "dom (props ?r) \<subseteq> name ` set (fields_hdr hdr)"
    using dom_foldl_upper [of ?val empty_object "fields_hdr hdr"]
    by (simp add: empty_object_def)
  have lo: "name ` set (fields_hdr hdr) - {js ''__proto__''} \<subseteq> dom (props ?r)"
    by (rule dom_foldl_lower)
  show "\<exists>r. LER_REGISTRO_DBF s u buffer (Some hdr) i = Some r
          \<and> dom (props r) \<subseteq> name ` set (fields_hdr hdr)
          \<and> name ` set (fields_hdr hdr) - {js ''__proto__''} \<subseteq> dom (props r)"
    using r up lo by blast
qed

text \<open>
  The cases in \<open>sample_two_fields\<close>: records 1 (deleted), 2 (outside) and 0 (present,
  with two blank fields), and the \<open>null\<close> header.
\<close>

theorem deleted_record_is_null_witness:
  "(0::int) \<le> 1 \<and> (1::int) < int (recordCount (the (CHECA_HEADER_DBF sample_two_fields)))
   \<and> recordDeleted sample_two_fields (the (CHECA_HEADER_DBF sample_two_fields)) (nat 1)
   \<and> LER_REGISTRO_DBF sample_decode sample_upper sample_two_fields
         (Some (the (CHECA_HEADER_DBF sample_two_fields))) 1 = None
   \<and> int (recordCount (the (CHECA_HEADER_DBF sample_two_fields))) \<le> 2
   \<and> LER_REGISTRO_DBF sample_decode sample_upper sample_two_fields
         (Some (the (CHECA_HEADER_DBF sample_two_fields))) 2 = None
   \<and> LER_REGISTRO_DBF sample_decode sample_upper sample_two_fields None 0 = None
   \<and> \<not> recordDeleted sample_two_fields (the (CHECA_HEADER_DBF sample_two_fields)) (nat 0)
   \<and> LER_REGISTRO_DBF sample_decode sample_upper sample_two_fields
         (Some (the (CHECA_HEADER_DBF sample_two_fields))) 0
       = Some \<lparr> props = [[0x41] \<mapsto> VString []], proto = ProtoObject \<rparr>
   \<and> (\<exists>r. LER_REGISTRO_DBF sample_decode sample_upper sample_two_fields
         (Some (the (CHECA_HEADER_DBF sample_two_fields))) 0 = Some r
         \<and> dom (props r) \<subseteq> name ` set (fields_hdr (the (CHECA_HEADER_DBF sample_two_fields)))
         \<and> name ` set (fields_hdr (the (CHECA_HEADER_DBF sample_two_fields))) - {js ''__proto__''}
             \<subseteq> dom (props r))"
proof -
  let ?T = "sample_two_fields"
  let ?H = "the (CHECA_HEADER_DBF ?T)"
  have h: "CHECA_HEADER_DBF ?T = Some ?H" by (simp add: sample_two_fields_header)
  have rc: "recordCount ?H = 2" by (simp add: sample_two_fields_header)
  have d1: "recordDeleted ?T ?H (nat 1)"
    by (simp add: sample_two_fields_header recordDeleted_def index_def)
       (simp add: sample_two_fields_def)
  have d0: "\<not> recordDeleted ?T ?H (nat 0)"
    by (simp add: sample_two_fields_header recordDeleted_def index_def)
       (simp add: sample_two_fields_def)
  have p0: "LER_REGISTRO_DBF sample_decode sample_upper ?T (Some ?H) 0
              = Some \<lparr> props = [[0x41] \<mapsto> VString []], proto = ProtoObject \<rparr>"
    using sample_two_fields_present h by simp
  have i1: "(0::int) \<le> 1 \<and> (1::int) < int (recordCount ?H) \<and> recordDeleted ?T ?H (nat 1)"
    using rc d1 by simp
  have i2: "(2::int) < 0 \<or> int (recordCount ?H) \<le> 2" using rc by simp
  have i0: "(0::int) \<le> 0 \<and> (0::int) < int (recordCount ?H) \<and> \<not> recordDeleted ?T ?H (nat 0)"
    using rc d0 by simp
  note t1 = deleted_record_is_null [of 1 ?H ?T sample_decode sample_upper]
  note t2 = deleted_record_is_null [of 2 ?H ?T sample_decode sample_upper]
  note t0 = deleted_record_is_null [of 0 ?H ?T sample_decode sample_upper]
  have c1: "LER_REGISTRO_DBF sample_decode sample_upper ?T (Some ?H) 1 = None"
    using t1 i1 by blast
  have c2: "LER_REGISTRO_DBF sample_decode sample_upper ?T (Some ?H) 2 = None"
    using t2 i2 by blast
  have cn: "LER_REGISTRO_DBF sample_decode sample_upper ?T None 0 = None"
    using t0 by blast
  have c0: "\<exists>r. LER_REGISTRO_DBF sample_decode sample_upper ?T (Some ?H) 0 = Some r
         \<and> dom (props r) \<subseteq> name ` set (fields_hdr ?H)
         \<and> name ` set (fields_hdr ?H) - {js ''__proto__''} \<subseteq> dom (props r)"
    using t0 i0 by blast
  show ?thesis using i1 rc c1 c2 cn d0 p0 c0 by simp
qed



section \<open>When the header readers give up\<close>

lemma overrun_from_step:
  "overrun_from b hs pos \<longleftrightarrow>
     pos + 1 < hs \<and> \<not> terminator_at b pos
     \<and> (length b \<le> pos + 17 \<or> overrun_from b hs (pos + 32))"
proof
  assume "overrun_from b hs pos"
  then obtain k where k: "pos + 32 * k + 1 < hs"
      "\<forall>j \<le> k. \<not> terminator_at b (pos + 32 * j)" "length b \<le> pos + 32 * k + 17"
    unfolding overrun_from_def by blast
  from k(2) have t0: "\<not> terminator_at b pos" by (metis le0 mult_0_right add_0_right)
  show "pos + 1 < hs \<and> \<not> terminator_at b pos
     \<and> (length b \<le> pos + 17 \<or> overrun_from b hs (pos + 32))"
  proof (cases k)
    case 0
    then show ?thesis using k t0 by simp
  next
    case (Suc k')
    have "\<forall>j \<le> k'. \<not> terminator_at b (pos + 32 + 32 * j)"
    proof (intro allI impI)
      fix j assume "j \<le> k'"
      then have "Suc j \<le> k" using Suc by simp
      with k(2) have "\<not> terminator_at b (pos + 32 * Suc j)" by blast
      then show "\<not> terminator_at b (pos + 32 + 32 * j)" by (simp add: add.assoc)
    qed
    moreover have "pos + 32 + 32 * k' + 1 < hs" "length b \<le> pos + 32 + 32 * k' + 17"
      using k(1,3) Suc by simp_all
    ultimately have "overrun_from b hs (pos + 32)" unfolding overrun_from_def by blast
    then show ?thesis using k(1) t0 by simp
  qed
next
  assume a: "pos + 1 < hs \<and> \<not> terminator_at b pos
     \<and> (length b \<le> pos + 17 \<or> overrun_from b hs (pos + 32))"
  show "overrun_from b hs pos"
  proof (cases "length b \<le> pos + 17")
    case True
    then have "pos + 32 * 0 + 1 < hs \<and> (\<forall>j \<le> 0. \<not> terminator_at b (pos + 32 * j))
        \<and> length b \<le> pos + 32 * 0 + 17" using a by simp
    then show ?thesis unfolding overrun_from_def by blast
  next
    case False
    then obtain k where k: "pos + 32 + 32 * k + 1 < hs"
      "\<forall>j \<le> k. \<not> terminator_at b (pos + 32 + 32 * j)" "length b \<le> pos + 32 + 32 * k + 17"
      using a unfolding overrun_from_def by blast
    have "\<forall>j \<le> Suc k. \<not> terminator_at b (pos + 32 * j)"
    proof (intro allI impI)
      fix j assume j: "j \<le> Suc k"
      show "\<not> terminator_at b (pos + 32 * j)"
      proof (cases j)
        case 0
        then show ?thesis using a by simp
      next
        case (Suc j')
        then have "j' \<le> k" using j by simp
        with k(2) have "\<not> terminator_at b (pos + 32 + 32 * j')" by blast
        then show ?thesis using Suc by (simp add: add.assoc)
      qed
    qed
    moreover have "pos + 32 * Suc k + 1 < hs" "length b \<le> pos + 32 * Suc k + 17"
      using k(1,3) by simp_all
    ultimately show ?thesis unfolding overrun_from_def by blast
  qed
qed

lemma descriptor_overrun_eq: "descriptor_overrun b hs = overrun_from b hs 32"
proof
  assume "descriptor_overrun b hs"
  then obtain k where "32 + 32 * k + 1 < hs"
     "\<forall>j \<in> {0..<k + 1}. \<not> terminator_at b (32 + 32 * j)" "length b \<le> 32 + 32 * k + 17"
    unfolding descriptor_overrun_def by blast
  moreover from this(2) have "\<forall>j \<le> k. \<not> terminator_at b (32 + 32 * j)" by simp
  ultimately show "overrun_from b hs 32" unfolding overrun_from_def by blast
next
  assume "overrun_from b hs 32"
  then obtain k where k: "32 + 32 * k + 1 < hs"
     "\<forall>j \<le> k. \<not> terminator_at b (32 + 32 * j)" "length b \<le> 32 + 32 * k + 17"
    unfolding overrun_from_def by blast
  from k(1) have "k \<in> {0..<hs}" by simp
  moreover from k(2) have "\<forall>j \<in> {0..<k + 1}. \<not> terminator_at b (32 + 32 * j)" by simp
  ultimately show "descriptor_overrun b hs" using k(1,3) unfolding descriptor_overrun_def by blast
qed

lemma PROCESSA_loop_fail:
  "(\<exists>e. PROCESSA_loop b hs pos off flds = Inl e) \<longleftrightarrow> overrun_from b hs pos"
proof (induction b hs pos off flds rule: PROCESSA_loop.induct)
  case (1 buffer hdrSize position offs flds)
  show ?case
  proof (cases "position + 1 < hdrSize \<and> \<not> terminator_at buffer position")
    case False
    then show ?thesis
      by (subst PROCESSA_loop.simps, subst overrun_from_step) (auto simp add: terminator_at_def)
  next
    case True
    show ?thesis
    proof (cases "length buffer \<le> position + 17")
      case short: True
      then show ?thesis using True
        by (subst PROCESSA_loop.simps, subst overrun_from_step)
           (auto simp add: terminator_at_def bindE_def readUInt8_def Let_def)
    next
      case long: False
      then show ?thesis using True "1.IH"
        apply (subst PROCESSA_loop.simps, subst overrun_from_step)
        apply (simp add: terminator_at_def bindE_def readUInt8_def Let_def)
        done
    qed
  qed
qed


lemma readField_fail:
  "(\<exists>e. readField d b pos cfo = Inl e) \<longleftrightarrow> length b \<le> pos + 17"
  by (auto simp add: readField_def bindE_def getUint8_def Let_def)

lemma readFields_loop_fail:
  "(\<exists>e. readFields_loop d b hl pos cfo flds = Inl e) \<longleftrightarrow> overrun_from b hl pos"
proof (induction d b hl pos cfo flds rule: readFields_loop.induct)
  case (1 decodeAscii buffer hdrLen offs currentFieldOffset flds)
  show ?case
  proof (cases "offs + 1 < hdrLen \<and> \<not> terminator_at buffer offs")
    case False
    then show ?thesis
      by (subst readFields_loop.simps, subst overrun_from_step)
         (auto simp add: terminator_at_def index_def bindE_def getUint8_def)
  next
    case True
    show ?thesis
    proof (cases "length buffer \<le> offs + 17")
      case short: True
      then obtain e where "readField decodeAscii buffer offs currentFieldOffset = Inl e"
        using readField_fail by blast
      then show ?thesis using True short
        by (subst readFields_loop.simps, subst overrun_from_step)
           (auto simp add: terminator_at_def index_def bindE_def getUint8_def)
    next
      case long: False
      then obtain field where f: "readField decodeAscii buffer offs currentFieldOffset = Inr field"
        using readField_fail [of decodeAscii buffer offs currentFieldOffset]
        by (cases "readField decodeAscii buffer offs currentFieldOffset") auto
      have g: "getUint8 buffer offs = Inr (unat (buffer ! offs))" "unat (buffer ! offs) \<noteq> 0x0D"
        using long True by (simp_all add: getUint8_def terminator_at_def index_def)
      from "1.IH" [of "unat (buffer ! offs)" field] True g
      have "(\<exists>e. readFields_loop decodeAscii buffer hdrLen (offs + 32)
                  (currentFieldOffset + length_fld field) (flds @ [field]) = Inl e)
            \<longleftrightarrow> overrun_from buffer hdrLen (offs + 32)" by simp
      then show ?thesis using True long f g
        by (subst readFields_loop.simps, subst overrun_from_step) (simp add: bindE_def)
    qed
  qed
qed

lemma CHECA_HEADER_DBF_fail:
  "CHECA_HEADER_DBF b = None \<longleftrightarrow>
     length b < 32 \<or> u16_at b 8 < 32 \<or> u16_at b 10 < 1 \<or> descriptor_overrun b (u16_at b 8)"
proof (cases "length b < 32")
  case True
  then show ?thesis by (simp add: CHECA_HEADER_DBF_def CHECA_try_def)
next
  case False
  then have len: "b \<noteq> []" "1 < length b" "2 < length b" "3 < length b" "8 \<le> length b"
      "10 \<le> length b" "12 \<le> length b"
    by auto
  show ?thesis
  proof (cases "u16_at b 8 < 32 \<or> u16_at b 10 < 1")
    case True
    then show ?thesis using False len
      by (auto simp add: CHECA_HEADER_DBF_def CHECA_try_def bindE_def readUInt8_def
            readUInt16LE_def readUInt32LE_def u16_at_def Let_def)
  next
    case ok: False
    show ?thesis
    proof (cases "PROCESSA_loop b (u16_at b 8) 32 0 []")
      case (Inl e)
      then have "overrun_from b (u16_at b 8) 32" using PROCESSA_loop_fail by blast
      then show ?thesis using False ok Inl len
        by (simp add: CHECA_HEADER_DBF_def CHECA_try_def bindE_def readUInt8_def
              readUInt16LE_def readUInt32LE_def u16_at_def Let_def PROCESSA_CAMPOS_DBF_def
              descriptor_overrun_eq)
    next
      case (Inr fs)
      then have "\<not> overrun_from b (u16_at b 8) 32"
        using PROCESSA_loop_fail [of b "u16_at b 8" 32 0 "[]"] by simp
      then show ?thesis using False ok Inr len
        by (simp add: CHECA_HEADER_DBF_def CHECA_try_def bindE_def readUInt8_def
              readUInt16LE_def readUInt32LE_def u16_at_def Let_def PROCESSA_CAMPOS_DBF_def
              descriptor_overrun_eq)
    qed
  qed
qed

lemma readDbfMetadata_fail:
  "(\<exists>e. readDbfMetadata d b = Inl e) \<longleftrightarrow>
     length b < 12 \<or> descriptor_overrun b (u16_at b 8)"
proof (cases "length b < 12")
  case True
  then show ?thesis
    by (auto simp add: readDbfMetadata_def bindE_def getUint8_def getUint16_def getUint32_def)
next
  case False
  then have len: "b \<noteq> []" "8 \<le> length b" "10 \<le> length b" "12 \<le> length b"
    by auto
  show ?thesis
  proof (cases "readFields_loop d b (u16_at b 8) 32 1 []")
    case (Inl e)
    then have "overrun_from b (u16_at b 8) 32" using readFields_loop_fail by blast
    then show ?thesis using False Inl len
      by (simp add: readDbfMetadata_def bindE_def getUint8_def getUint16_def getUint32_def
            u16_at_def descriptor_overrun_eq)
  next
    case (Inr fs)
    then have "\<not> overrun_from b (u16_at b 8) 32"
      using readFields_loop_fail [of d b "u16_at b 8" 32 1 "[]"] by simp
    then show ?thesis using False Inr len
      by (simp add: readDbfMetadata_def bindE_def getUint8_def getUint16_def getUint32_def
            u16_at_def descriptor_overrun_eq)
  qed
qed


text \<open>
  A header of 33 bytes that declares records of 5 bytes and defines no field: the sum of
  the field lengths and the deletion marker is 1, not 5, and both readers return a header.
\<close>

theorem header_accepted_despite_field_sum:
  "length sample_no_fields = 33
   \<and> readDbfMetadata sample_decode sample_no_fields =
       Inr (\<lparr> firstByte = 3, numRecords = 0, headerLength = 33, recordLength = 5 \<rparr>, [])
   \<and> CHECA_HEADER_DBF sample_no_fields =
       Some \<lparr> version = 3, lastUpdate = (2025, 0, 1), recordCount = 0, headerSize = 33,
              recordSize = 5, fields_hdr = [], hasCodePage = False, codePage = None \<rparr>
   \<and> 1 + sum_list (map length_fld ([] :: DbfField list)) \<noteq> (5 :: nat)"
  by (simp add: readDbfMetadata_def bindE_def getUint8_def getUint16_def getUint32_def
        readFields_loop.simps CHECA_HEADER_DBF_def CHECA_try_def readUInt8_def readUInt16LE_def
        readUInt32LE_def PROCESSA_CAMPOS_DBF_def PROCESSA_loop.simps VERIFICA_CODE_PAGE_def
        index_def sample_no_fields_def)

text \<open>
  Claim C6, amended. \<open>CHECA_HEADER_DBF\<close> returns \<open>null\<close> exactly when the buffer has
  fewer than 32 bytes, the header size is below 32, the record size is 0, or a field
  definition that is visited reaches past the end of the buffer; \<open>readDbfMetadata\<close>
  throws exactly when the buffer has fewer than 12 bytes or a visited field definition
  reaches past the end of the buffer. In every other case a header and a field list are
  produced: neither reader compares the buffer length with the header length, looks for
  a missing terminator, or compares the field lengths with the record length.
\<close>

theorem header_readers_fail_iff:
  "(CHECA_HEADER_DBF buffer = None \<longleftrightarrow>
      length buffer < 32 \<or> u16_at buffer 8 < 32 \<or> u16_at buffer 10 < 1
      \<or> descriptor_overrun buffer (u16_at buffer 8))
   \<and> ((\<exists>e. readDbfMetadata d buffer = Inl e) \<longleftrightarrow>
      length buffer < 12 \<or> descriptor_overrun buffer (u16_at buffer 8))"
  using CHECA_HEADER_DBF_fail [of buffer] readDbfMetadata_fail [of d buffer] by blast

text \<open>A table cut inside its only field definition: both readers give up.\<close>

theorem header_readers_fail_iff_witness:
  "descriptor_overrun sample_truncated (u16_at sample_truncated 8)
   \<and> CHECA_HEADER_DBF sample_truncated = None
   \<and> (\<exists>e. readDbfMetadata sample_decode sample_truncated = Inl e)"
proof -
  have hs: "u16_at sample_truncated 8 = 65" by (simp add: u16_at_def sample_truncated_def)
  have "(0::nat) \<in> {0..<65} \<and> 32 + 32 * 0 + 1 < (65::nat)
        \<and> (\<forall>j \<in> {0..<0 + 1}. \<not> terminator_at sample_truncated (32 + 32 * j))
        \<and> length sample_truncated \<le> 32 + 32 * 0 + 17"
    by (simp add: terminator_at_def index_def sample_truncated_def)
  then have ov: "descriptor_overrun sample_truncated (u16_at sample_truncated 8)"
    unfolding descriptor_overrun_def hs by blast
  show ?thesis using ov header_readers_fail_iff [of sample_truncated sample_decode] by simp
qed

end
